theory Spec2Isabelle
  imports Complex_Main "HOL-Library.Char_ord" "HOL-Library.List_Lexorder"
begin

section \<open>Python strings\<close>

text \<open>
  A Python \<open>str\<close> is modelled as a \<open>string\<close> (a list of \<open>char\<close>), one \<open>char\<close> per
  character. The whitespace characters are those of \<open>str.isspace\<close> in the ASCII range
  (tab, line feed, vertical tab, form feed, carriage return, the separators 0x1C to 0x1F
  and the blank).
\<close>

definition is_space :: "char \<Rightarrow> bool" where
  "is_space c = (c \<in> set [CHR 0x09, CHR 0x0A, CHR 0x0B, CHR 0x0C, CHR 0x0D,
                           CHR 0x1C, CHR 0x1D, CHR 0x1E, CHR 0x1F, CHR 0x20])"

definition strip_chars :: "(char \<Rightarrow> bool) \<Rightarrow> string \<Rightarrow> string" where
  \<comment> \<open>\<open>s.strip(chars)\<close>: drop the leading and the trailing characters of the given class\<close>
  "strip_chars P s = rev (dropWhile P (rev (dropWhile P s)))"

definition strip :: "string \<Rightarrow> string" where
  \<comment> \<open>\<open>s.strip()\<close>\<close>
  "strip s = strip_chars is_space s"

fun split_ws_aux :: "string \<Rightarrow> string \<Rightarrow> string list" where
  "split_ws_aux cur [] = (if cur = [] then [] else [cur])"
| "split_ws_aux cur (c # cs) =
     (if is_space c then (if cur = [] then split_ws_aux [] cs else cur # split_ws_aux [] cs)
      else split_ws_aux (cur @ [c]) cs)"

definition split_ws :: "string \<Rightarrow> string list" where
  \<comment> \<open>\<open>s.split()\<close>: the maximal runs of non-whitespace characters\<close>
  "split_ws s = split_ws_aux [] s"

fun join :: "string \<Rightarrow> string list \<Rightarrow> string" where
  \<comment> \<open>\<open>sep.join(xs)\<close>\<close>
  "join sep [] = []"
| "join sep [x] = x"
| "join sep (x # y # ys) = x @ sep @ join sep (y # ys)"

fun split_nl_aux :: "string \<Rightarrow> string \<Rightarrow> string list" where
  "split_nl_aux cur [] = [cur]"
| "split_nl_aux cur (c # cs) =
     (if c = CHR 0x0A then cur # split_nl_aux [] cs else split_nl_aux (cur @ [c]) cs)"

definition split_nl :: "string \<Rightarrow> string list" where
  \<comment> \<open>\<open>s.split('\n')\<close>\<close>
  "split_nl s = split_nl_aux [] s"

fun split_nlnl_aux :: "string \<Rightarrow> string \<Rightarrow> string list" where
  "split_nlnl_aux cur [] = [cur]"
| "split_nlnl_aux cur [c] = [cur @ [c]]"
| "split_nlnl_aux cur (c # d # cs) =
     (if c = CHR 0x0A \<and> d = CHR 0x0A then cur # split_nlnl_aux [] cs
      else split_nlnl_aux (cur @ [c]) (d # cs))"

definition split_nlnl :: "string \<Rightarrow> string list" where
  \<comment> \<open>\<open>s.split('\n\n')\<close>: the separator is matched left to right, without overlap\<close>
  "split_nlnl s = split_nlnl_aux [] s"

fun starts_with :: "string \<Rightarrow> string \<Rightarrow> bool" where
  \<comment> \<open>\<open>s.startswith(p)\<close>, the prefix first\<close>
  "starts_with [] s = True"
| "starts_with (p # ps) [] = False"
| "starts_with (p # ps) (c # cs) = (p = c \<and> starts_with ps cs)"

fun contains :: "string \<Rightarrow> string \<Rightarrow> bool" where
  \<comment> \<open>\<open>sub in s\<close> on two strings\<close>
  "contains sub [] = (sub = [])"
| "contains sub (c # cs) = (starts_with sub (c # cs) \<or> contains sub cs)"

definition lower_char :: "char \<Rightarrow> char" where
  "lower_char c =
     (case map_of (zip ''ABCDEFGHIJKLMNOPQRSTUVWXYZ'' ''abcdefghijklmnopqrstuvwxyz'') c of
        Some l \<Rightarrow> l
      | None \<Rightarrow> c)"

definition lower :: "string \<Rightarrow> string" where
  \<comment> \<open>\<open>s.lower()\<close> on the ASCII letters\<close>
  "lower s = map lower_char s"

function str_nat :: "nat \<Rightarrow> string" where
  \<comment> \<open>\<open>str(n)\<close> of a non-negative integer\<close>
  "str_nat n =
     (if n < 10 then [''0123456789'' ! n]
      else str_nat (n div 10) @ [''0123456789'' ! (n mod 10)])"
  by pat_completeness auto
termination
  by (relation "measure id") auto

declare str_nat.simps [simp del]

definition pad2 :: "nat \<Rightarrow> string" where
  \<comment> \<open>the format \<open>{i:02d}\<close>\<close>
  "pad2 i = (if i < 10 then ''0'' @ str_nat i else str_nat i)"

definition py_take :: "int \<Rightarrow> 'a list \<Rightarrow> 'a list" where
  \<comment> \<open>the slice \<open>xs[:n]\<close>; a negative \<open>n\<close> counts from the end\<close>
  "py_take n xs = (if 0 \<le> n then take (nat n) xs else take (length xs - nat (- n)) xs)"

definition py_range_step :: "nat \<Rightarrow> nat \<Rightarrow> nat list" where
  \<comment> \<open>\<open>range(0, n, step)\<close> for a step of at least 1\<close>
  "py_range_step n step = map (\<lambda>k. k * step) [0 ..< (n + step - 1) div step]"

section \<open>Parsed JSON and the Python operations the code applies to it\<close>

text \<open>
  What \<open>json.loads\<close> and \<open>json.load\<close> return. A \<open>dict\<close> is the list of its items in
  insertion order, with distinct keys. Numbers are integers here: no operation of the
  code under study tells a float from an integer.
\<close>

datatype json =
    JNull
  | JBool bool
  | JNum int
  | JStr string
  | JArr "json list"
  | JObj "(string \<times> json) list"

fun truthy :: "json \<Rightarrow> bool" where
  \<comment> \<open>the truth value of \<open>if x:\<close>\<close>
  "truthy JNull = False"
| "truthy (JBool b) = b"
| "truthy (JNum n) = (n \<noteq> 0)"
| "truthy (JStr s) = (s \<noteq> [])"
| "truthy (JArr xs) = (xs \<noteq> [])"
| "truthy (JObj kvs) = (kvs \<noteq> [])"

fun py_iter :: "json \<Rightarrow> json list option" where
  \<comment> \<open>the items of \<open>for x in j\<close>; \<open>None\<close> is the TypeError of a value that is not iterable\<close>
  "py_iter (JArr xs) = Some xs"
| "py_iter (JObj kvs) = Some (map (\<lambda>kv. JStr (fst kv)) kvs)"
| "py_iter (JStr s) = Some (map (\<lambda>c. JStr [c]) s)"
| "py_iter j = None"

fun py_in :: "string \<Rightarrow> json \<Rightarrow> bool option" where
  \<comment> \<open>\<open>key in j\<close> for a string \<open>key\<close>; \<open>None\<close> is the TypeError\<close>
  "py_in key (JObj kvs) = Some (key \<in> set (map fst kvs))"
| "py_in key (JArr xs) = Some (JStr key \<in> set xs)"
| "py_in key (JStr s) = Some (contains key s)"
| "py_in key j = None"

fun py_getitem :: "json \<Rightarrow> string \<Rightarrow> json option" where
  \<comment> \<open>\<open>j[key]\<close> for a string \<open>key\<close>; \<open>None\<close> is the KeyError or TypeError\<close>
  "py_getitem (JObj kvs) key = map_of kvs key"
| "py_getitem j key = None"

fun py_get :: "json \<Rightarrow> string \<Rightarrow> json \<Rightarrow> json option" where
  \<comment> \<open>\<open>j.get(key, default)\<close>; \<open>None\<close> is the AttributeError of a value that is no dict\<close>
  "py_get (JObj kvs) key dflt = (case map_of kvs key of Some v \<Rightarrow> Some v | None \<Rightarrow> Some dflt)"
| "py_get j key dflt = None"

fun py_slice :: "nat \<Rightarrow> json \<Rightarrow> json option" where
  \<comment> \<open>\<open>j[:n]\<close>; \<open>None\<close> is the error of a value that cannot be sliced\<close>
  "py_slice n (JArr xs) = Some (JArr (take n xs))"
| "py_slice n (JStr s) = Some (JStr (take n s))"
| "py_slice n j = None"


fun the_strs :: "json list \<Rightarrow> string list option" where
  \<comment> \<open>the items as strings, \<open>None\<close> when one of them is not a string\<close>
  "the_strs [] = Some []"
| "the_strs (JStr s # rest) = (case the_strs rest of None \<Rightarrow> None | Some ss \<Rightarrow> Some (s # ss))"
| "the_strs (j # rest) = None"

definition py_join :: "string \<Rightarrow> json \<Rightarrow> string option" where
  \<comment> \<open>\<open>sep.join(j)\<close>; \<open>None\<close> is the TypeError of a value that is not an iterable of strings\<close>
  "py_join sep j = (case py_iter j of None \<Rightarrow> None
                    | Some items \<Rightarrow> (case the_strs items of None \<Rightarrow> None
                                     | Some ss \<Rightarrow> Some (join sep ss)))"

definition py_format :: "(json \<Rightarrow> string) \<Rightarrow> json \<Rightarrow> string" where
  \<comment> \<open>\<open>f"{j}"\<close>: a string is itself; the first argument is Python's \<open>str()\<close> on the other values\<close>
  "py_format fmt j = (case j of JStr s \<Rightarrow> s | _ \<Rightarrow> fmt j)"

section \<open>Errors\<close>

datatype error =
    FileNotFoundError
  | IndexError
  | KeyError
  | ZeroDivisionError
  | TypeError
  | AttributeError
  | ServiceError string
  | AllKeysFailed "string option"
  | SpeechError

section \<open>Extractor: \<open>pdf_parser.py\<close>\<close>

definition MIN_DIGITAL_TEXT_THRESHOLD :: nat where
  "MIN_DIGITAL_TEXT_THRESHOLD = 100"

text \<open>
  A page of the opened document, seen through the two external collaborators: what the
  PDF library's \<open>page.get_text()\<close> returns and what \<open>_ocr_page(page)\<close> (rasterisation
  followed by the OCR engine) returns.
\<close>

record page =
  get_text :: string
  ocr_page :: string

record extraction_stats =
  digital_pages :: nat
  ocr_pages :: nat
  hybrid_pages :: nat

record PDFParser =
  pdf_name :: string
  doc :: "page list"
  num_pages :: nat
  extraction_stats :: extraction_stats

definition zero_stats :: extraction_stats where
  "zero_stats = \<lparr>digital_pages = 0, ocr_pages = 0, hybrid_pages = 0\<rparr>"

definition PDFParser_init :: "(string \<Rightarrow> page list option) \<Rightarrow> string \<Rightarrow> error + PDFParser" where
  \<comment> \<open>\<open>__init__\<close>; the first argument is the file system: the pages of the PDF at a path,
      \<open>None\<close> when the path does not resolve to a file\<close>
  "PDFParser_init fs pdf_path =
     (case fs pdf_path of
        None \<Rightarrow> Inl FileNotFoundError
      | Some d \<Rightarrow> Inr \<lparr>pdf_name = pdf_path, doc = d, num_pages = length d,
                       extraction_stats = zero_stats\<rparr>)"

definition extract_text_from_page :: "PDFParser \<Rightarrow> nat \<Rightarrow> error + (string \<times> PDFParser)" where
  "extract_text_from_page self page_num =
     (if page_num \<ge> length (doc self) then Inl IndexError
      else
        let pg = doc self ! page_num;
            digital_text = strip (get_text pg);
            st = extraction_stats self
        in if length digital_text > MIN_DIGITAL_TEXT_THRESHOLD
           then Inr (digital_text,
                     self\<lparr>extraction_stats := st\<lparr>digital_pages := digital_pages st + 1\<rparr>\<rparr>)
           else
             let ocr_text = strip (ocr_page pg)
             in if length ocr_text > length digital_text
                then Inr (ocr_text,
                          self\<lparr>extraction_stats := st\<lparr>ocr_pages := ocr_pages st + 1\<rparr>\<rparr>)
                else Inr (digital_text,
                          self\<lparr>extraction_stats := st\<lparr>hybrid_pages := hybrid_pages st + 1\<rparr>\<rparr>))"

record page_entry =
  entry_page_num :: nat
  entry_text :: string
  char_count :: nat
  word_count :: nat

record structured_content =
  filename :: string
  content_num_pages :: nat
  pages :: "page_entry list"
  full_text :: string
  content_stats :: extraction_stats

fun process_pages ::
  "PDFParser \<Rightarrow> nat list \<Rightarrow> page_entry list \<Rightarrow> error + (page_entry list \<times> PDFParser)" where
  \<comment> \<open>the loop \<open>for page_num in range(self.num_pages)\<close> of \<open>extract_structured_content\<close>\<close>
  "process_pages self [] acc = Inr (acc, self)"
| "process_pages self (page_num # rest) acc =
     (case extract_text_from_page self page_num of
        Inl e \<Rightarrow> Inl e
      | Inr (page_text, self') \<Rightarrow>
          process_pages self' rest
            (acc @ [\<lparr>entry_page_num = page_num + 1, entry_text = page_text,
                      char_count = length page_text,
                      word_count = length (split_ws page_text)\<rparr>]))"

definition extract_structured_content :: "PDFParser \<Rightarrow> error + (structured_content \<times> PDFParser)" where
  "extract_structured_content self =
     (let self0 = self\<lparr>extraction_stats := zero_stats\<rparr>
      in case process_pages self0 [0 ..< num_pages self0] [] of
           Inl e \<Rightarrow> Inl e
         | Inr (ps, self') \<Rightarrow>
             Inr (\<lparr>filename = pdf_name self', content_num_pages = num_pages self',
                   pages = ps,
                   full_text = join [CHR 0x0A, CHR 0x0A] (map entry_text ps),
                   content_stats = extraction_stats self'\<rparr>, self'))"

definition stats_total :: "extraction_stats \<Rightarrow> nat" where
  "stats_total st = digital_pages st + ocr_pages st + hybrid_pages st"

section \<open>The AI text service wrapper: \<open>_call_gemini\<close>\<close>

text \<open>
  \<open>ContentSummarizer\<close> (\<open>summarizer.py\<close>) and \<open>IconSearchQueryGenerator\<close>
  (\<open>image_generator.py\<close>) carry the same four fields and the same three methods
  \<open>_init_client\<close>, \<open>_try_next_key\<close> and \<open>_call_gemini\<close>, line for line; one record and
  one set of definitions model both.

  A prompt is the template that builds it together with the values interpolated into it.
  The service is the external collaborator: what the request of a given attempt, made
  with a given credential and prompt, comes back with: \<open>Inr\<close> the response text, or
  \<open>Inl\<close> the message \<open>str(e)\<close> of the exception it raises.
  A response always carries a text here; a response without one (\<open>response.text\<close> being
  \<open>None\<close>) makes every caller of the wrapper take its \<open>except\<close> branch, as an error does.
\<close>

datatype prompt =
    KeyPointsPrompt string int
  | TitlePrompt string
  | IconQueryPrompt string "string list"
  | AlternativePrompt string "string list" "string list"

type_synonym service = "nat \<Rightarrow> string \<Rightarrow> prompt \<Rightarrow> string + string"

record gemini_state =
  api_keys :: "string list"
  model_name :: string
  current_key_index :: nat
  client :: "string option"

definition init_client :: "gemini_state \<Rightarrow> gemini_state" where
  "init_client self =
     (if current_key_index self < length (api_keys self)
      then self\<lparr>client := Some (api_keys self ! current_key_index self)\<rparr>
      else self)"

definition gemini_init :: "string list \<Rightarrow> string \<Rightarrow> gemini_state" where
  \<comment> \<open>\<open>__init__\<close>\<close>
  "gemini_init keys model =
     init_client \<lparr>api_keys = keys, model_name = model, current_key_index = 0, client = None\<rparr>"

definition try_next_key :: "gemini_state \<Rightarrow> bool \<times> gemini_state" where
  "try_next_key self =
     (let self1 = self\<lparr>current_key_index := current_key_index self + 1\<rparr>
      in if current_key_index self1 < length (api_keys self1)
         then (True, init_client self1)
         else (False, self1))"

definition is_rate_limit :: "string \<Rightarrow> bool" where
  \<comment> \<open>\<open>any(term in str(e).lower() for term in [...])\<close>\<close>
  "is_rate_limit msg =
     (let error_msg = lower msg
      in list_ex (\<lambda>term. contains term error_msg)
           [''rate'', ''quota'', ''limit'', ''resource_exhausted''])"

definition none_client_msg :: string where
  \<comment> \<open>the message of the AttributeError that \<open>self.client.models\<close> raises on a \<open>None\<close> client\<close>
  "none_client_msg =
     [CHR 0x27] @ ''NoneType'' @ [CHR 0x27] @ '' object has no attribute ''
       @ [CHR 0x27] @ ''models'' @ [CHR 0x27]"

definition generate_content ::
  "service \<Rightarrow> nat \<Rightarrow> prompt \<Rightarrow> gemini_state \<Rightarrow> (error \<times> string) + string" where
  \<comment> \<open>the body of the \<open>try\<close>: \<open>Inl\<close> the exception and its message\<close>
  "generate_content svc attempt p self =
     (case client self of
        None \<Rightarrow> Inl (AttributeError, none_client_msg)
      | Some key \<Rightarrow>
          (case svc attempt key p of
             Inl msg \<Rightarrow> Inl (ServiceError msg, msg)
           | Inr text \<Rightarrow> Inr text))"

fun call_gemini_loop ::
  "service \<Rightarrow> prompt \<Rightarrow> nat list \<Rightarrow> string option \<Rightarrow> gemini_state
     \<Rightarrow> (error + string) \<times> gemini_state" where
  \<comment> \<open>\<open>for attempt in range(len(self.api_keys))\<close> and the final \<open>raise\<close>\<close>
  "call_gemini_loop svc p [] last_error self = (Inl (AllKeysFailed last_error), self)"
| "call_gemini_loop svc p (attempt # rest) last_error self =
     (case generate_content svc attempt p self of
        Inr text \<Rightarrow> (Inr text, self)
      | Inl (e, msg) \<Rightarrow>
          if is_rate_limit msg
          then (case try_next_key self of
                  (True, self') \<Rightarrow> call_gemini_loop svc p rest (Some msg) self'
                | (False, self') \<Rightarrow> (Inl (AllKeysFailed (Some msg)), self'))
          else (Inl e, self))"

definition call_gemini ::
  "service \<Rightarrow> prompt \<Rightarrow> gemini_state \<Rightarrow> (error + string) \<times> gemini_state" where
  "call_gemini svc p self = call_gemini_loop svc p [0 ..< length (api_keys self)] None self"

section \<open>Summarizer: \<open>summarizer.py\<close>\<close>

definition default_model :: string where
  "default_model = ''gemini-2.0-flash-exp''"

definition strip_code_fence :: "string \<Rightarrow> string" where
  \<comment> \<open>\<open>if result_text.startswith("```"): ... '\n'.join(lines[1:-1])\<close>\<close>
  "strip_code_fence result_text =
     (if starts_with [CHR 0x60, CHR 0x60, CHR 0x60] result_text
      then join [CHR 0x0A] (butlast (tl (split_nl result_text)))
      else result_text)"

definition mk_slide :: "json \<Rightarrow> json \<Rightarrow> json \<Rightarrow> json" where
  "mk_slide t b n = JObj [(''title'', t), (''bullets'', b), (''speaker_notes'', n)]"

fun validate_slides :: "json list \<Rightarrow> json list \<Rightarrow> json list option" where
  \<comment> \<open>the validation loop; \<open>None\<close> is an exception raised inside it\<close>
  "validate_slides [] validated_slides = Some validated_slides"
| "validate_slides (slide # rest) validated_slides =
     (case py_in ''title'' slide of
        None \<Rightarrow> None
      | Some False \<Rightarrow> validate_slides rest validated_slides
      | Some True \<Rightarrow>
     (case py_in ''bullets'' slide of
        None \<Rightarrow> None
      | Some False \<Rightarrow> validate_slides rest validated_slides
      | Some True \<Rightarrow>
     (case py_in ''speaker_notes'' slide of
        None \<Rightarrow> None
      | Some False \<Rightarrow> validate_slides rest validated_slides
      | Some True \<Rightarrow>
     (case py_getitem slide ''title'' of
        None \<Rightarrow> None
      | Some t \<Rightarrow>
     (case py_getitem slide ''bullets'' of
        None \<Rightarrow> None
      | Some b \<Rightarrow>
     (case py_slice 3 b of
        None \<Rightarrow> None
      | Some b3 \<Rightarrow>
     (case py_getitem slide ''speaker_notes'' of
        None \<Rightarrow> None
      | Some n \<Rightarrow> validate_slides rest (validated_slides @ [mk_slide t b3 n]))))))))"

fun fallback_loop :: "string list \<Rightarrow> nat \<Rightarrow> int \<Rightarrow> nat list \<Rightarrow> json list \<Rightarrow> json list" where
  \<comment> \<open>\<open>for i in range(0, len(paragraphs), paragraphs_per_slide)\<close>\<close>
  "fallback_loop paragraphs paragraphs_per_slide num_points [] slides = slides"
| "fallback_loop paragraphs paragraphs_per_slide num_points (i # rest) slides =
     (let chunk = take paragraphs_per_slide (drop i paragraphs)
      in if chunk = [] then fallback_loop paragraphs paragraphs_per_slide num_points rest slides
         else
           let slides' = slides @
                 [mk_slide (JStr (''Key Point '' @ str_nat (length slides + 1)))
                           (JArr (map JStr (take 3 chunk)))
                           (JStr (take 200 (join '' '' chunk)))]
           in if int (length slides') \<ge> num_points then slides'
              else fallback_loop paragraphs paragraphs_per_slide num_points rest slides')"

definition fallback_extraction :: "string \<Rightarrow> int \<Rightarrow> error + json list" where
  "fallback_extraction text num_points =
     (let paragraphs = map strip (filter (\<lambda>p. strip p \<noteq> []) (split_nlnl text))
      in if num_points = 0 then Inl ZeroDivisionError
         else
           let paragraphs_per_slide = nat (max 1 (int (length paragraphs) div num_points))
           in Inr (fallback_loop paragraphs paragraphs_per_slide num_points
                     (py_range_step (length paragraphs) paragraphs_per_slide) []))"

definition extract_key_points ::
  "service \<Rightarrow> (string \<Rightarrow> json option) \<Rightarrow> gemini_state \<Rightarrow> string \<Rightarrow> int \<Rightarrow> int
     \<Rightarrow> (error + json list) \<times> gemini_state" where
  \<comment> \<open>the second argument is \<open>json.loads\<close>, \<open>None\<close> for its JSONDecodeError; both
      \<open>except\<close> clauses run the same fallback\<close>
  "extract_key_points svc loads self text num_points0 max_slides =
     (let num_points = min num_points0 max_slides;
          (r, self') = call_gemini svc (KeyPointsPrompt text num_points) self
      in case r of
           Inl e \<Rightarrow> (fallback_extraction text num_points, self')
         | Inr reply \<Rightarrow>
             (case loads (strip_code_fence (strip reply)) of
                None \<Rightarrow> (fallback_extraction text num_points, self')
              | Some slides \<Rightarrow>
                  (case py_iter slides of
                     None \<Rightarrow> (fallback_extraction text num_points, self')
                   | Some items \<Rightarrow>
                       (case validate_slides items [] of
                          None \<Rightarrow> (fallback_extraction text num_points, self')
                        | Some validated_slides \<Rightarrow>
                            (Inr (py_take max_slides validated_slides), self')))))"

fun remove_pdf :: "string \<Rightarrow> string" where
  \<comment> \<open>\<open>s.replace('.pdf', '')\<close>\<close>
  "remove_pdf (a # b # c # d # rest) =
     (if [a, b, c, d] = ''.pdf'' then remove_pdf rest else a # remove_pdf (b # c # d # rest))"
| "remove_pdf s = s"

definition fallback_title :: "string \<Rightarrow> json" where
  "fallback_title fname =
     JObj [(''title'', JStr (remove_pdf (map (\<lambda>c. if c = CHR ''_'' then CHR '' '' else c) fname))),
           (''subtitle'', JStr ''Key Insights and Learnings'')]"

definition generate_title_slide ::
  "service \<Rightarrow> (string \<Rightarrow> json option) \<Rightarrow> gemini_state \<Rightarrow> string \<Rightarrow> string
     \<Rightarrow> json \<times> gemini_state" where
  "generate_title_slide svc loads self text fname =
     (let (r, self') = call_gemini svc (TitlePrompt (take 1000 text)) self
      in case r of
           Inl e \<Rightarrow> (fallback_title fname, self')
         | Inr reply \<Rightarrow>
             (case loads (strip_code_fence (strip reply)) of
                None \<Rightarrow> (fallback_title fname, self')
              | Some title_data \<Rightarrow> (title_data, self')))"

definition narration_text :: "(json \<Rightarrow> string) \<Rightarrow> json \<Rightarrow> error + json" where
  \<comment> \<open>the text of one slide, in \<open>summarize_for_video\<close> and in \<open>generate_tts_audio\<close>: the
      speaker notes if they are there and truthy, otherwise
      \<open>f"{slide['title']}. {' '.join(slide.get('bullets', []))}"\<close>\<close>
  "narration_text fmt slide =
     (case py_get slide ''speaker_notes'' JNull of
        None \<Rightarrow> Inl AttributeError
      | Some notes \<Rightarrow>
          if truthy notes then Inr notes
          else (case py_getitem slide ''title'' of
                  None \<Rightarrow> Inl KeyError
                | Some t \<Rightarrow>
                    (case py_get slide ''bullets'' (JArr []) of
                       None \<Rightarrow> Inl AttributeError
                     | Some b \<Rightarrow>
                         (case py_join '' '' b of
                            None \<Rightarrow> Inl TypeError
                          | Some joined \<Rightarrow> Inr (JStr (py_format fmt t @ ''. '' @ joined))))))"

fun script_parts :: "(json \<Rightarrow> string) \<Rightarrow> json list \<Rightarrow> error + json list" where
  "script_parts fmt [] = Inr []"
| "script_parts fmt (slide # rest) =
     (case narration_text fmt slide of
        Inl e \<Rightarrow> Inl e
      | Inr part \<Rightarrow> (case script_parts fmt rest of Inl e \<Rightarrow> Inl e | Inr parts \<Rightarrow> Inr (part # parts)))"

definition summarize_for_video :: "(json \<Rightarrow> string) \<Rightarrow> json list \<Rightarrow> error + string" where
  "summarize_for_video fmt slides =
     (case script_parts fmt slides of
        Inl e \<Rightarrow> Inl e
      | Inr parts \<Rightarrow> (case the_strs parts of None \<Rightarrow> Inl TypeError
                      | Some ss \<Rightarrow> Inr (join '' '' ss)))"

definition extract_slides_from_pdf_text ::
  "service \<Rightarrow> (string \<Rightarrow> json option) \<Rightarrow> (json \<Rightarrow> string) \<Rightarrow> string \<Rightarrow> int \<Rightarrow> string list
     \<Rightarrow> error + json" where
  "extract_slides_from_pdf_text svc loads fmt pdf_text num_slides keys =
     (let summarizer = gemini_init keys default_model;
          (title_slide, summarizer1) = generate_title_slide svc loads summarizer pdf_text '''';
          (r, summarizer2) = extract_key_points svc loads summarizer1 pdf_text num_slides 12
      in case r of
           Inl e \<Rightarrow> Inl e
         | Inr content_slides \<Rightarrow>
             (case summarize_for_video fmt content_slides of
                Inl e \<Rightarrow> Inl e
              | Inr script \<Rightarrow>
                  Inr (JObj [(''title_slide'', title_slide),
                             (''content_slides'', JArr content_slides),
                             (''total_slides'', JNum (int (length content_slides) + 1)),
                             (''narration_script'', JStr script)])))"

section \<open>Icon resolver: \<open>image_generator.py\<close>\<close>

definition clean_query :: "string \<Rightarrow> string" where
  \<comment> \<open>\<open>query.strip().strip('"').strip("'").lower()\<close>, then the first three words joined by blanks\<close>
  "clean_query reply =
     (let query = lower (strip_chars (\<lambda>c. c = CHR 0x27)
                          (strip_chars (\<lambda>c. c = CHR 0x22) (strip reply)));
          words = take 3 (split_ws query)
      in join '' '' words)"

definition stop_words :: "string list" where
  "stop_words = [''the'', ''a'', ''an'', ''and'', ''or'', ''but'', ''in'', ''on'', ''at'', ''to'',
                 ''for'', ''of'', ''with'', ''by'', ''from'', ''up'', ''about'', ''into'',
                 ''through'', ''during'']"

definition title_candidates :: "string \<Rightarrow> string list" where
  \<comment> \<open>the first loop of \<open>_extract_alternative_from_title\<close>\<close>
  "title_candidates title =
     filter (\<lambda>clean_word. clean_word \<notin> set stop_words \<and> length clean_word > 3)
       (map (strip_chars (\<lambda>c. c \<in> set '',:;.!?'')) (split_ws (lower title)))"

definition generic_fallbacks :: "string list" where
  "generic_fallbacks = [''icon'', ''symbol'', ''graphic'', ''element'', ''concept'']"

definition extract_alternative_from_title :: "string \<Rightarrow> string list \<Rightarrow> string" where
  "extract_alternative_from_title title avoid_queries =
     (case find (\<lambda>candidate. candidate \<notin> set avoid_queries) (title_candidates title) of
        Some candidate \<Rightarrow> candidate
      | None \<Rightarrow>
          (case find (\<lambda>fallback. fallback \<notin> set avoid_queries) generic_fallbacks of
             Some fallback \<Rightarrow> fallback
           | None \<Rightarrow> ''circle''))"

definition generate_alternative_query ::
  "service \<Rightarrow> gemini_state \<Rightarrow> string \<Rightarrow> string list \<Rightarrow> string list \<Rightarrow> string \<times> gemini_state" where
  "generate_alternative_query svc self slide_title bullets failed_queries =
     (let (r, self') = call_gemini svc (AlternativePrompt slide_title bullets failed_queries) self
      in case r of
           Inl e \<Rightarrow> (extract_alternative_from_title slide_title failed_queries, self')
         | Inr reply \<Rightarrow>
             let query = clean_query reply
             in if query \<in> set failed_queries
                then (extract_alternative_from_title slide_title failed_queries, self')
                else (query, self'))"

text \<open>
  \<open>_try_search_download\<close> is the external collaborator of \<open>search_and_download\<close>: one
  search request and one download, \<open>True\<close> when both succeed. The model takes it as an
  oracle: the outcome of the attempt with a given number (counted from 0 within the call)
  for a given query. The model returns, with the result, the queries attempted in order.
  Every attempt before a later one has failed, so the list of attempts so far is the
  source's \<open>failed_queries\<close>.
\<close>

fun alternative_loop ::
  "(nat \<Rightarrow> string \<Rightarrow> bool) \<Rightarrow> service \<Rightarrow> string \<Rightarrow> string list \<Rightarrow> nat list \<Rightarrow> string list
     \<Rightarrow> gemini_state \<Rightarrow> bool \<times> string list \<times> gemini_state" where
  \<comment> \<open>\<open>for retry_num in range(2)\<close>; the result is whether an attempt succeeded\<close>
  "alternative_loop search svc slide_title bullets [] failed_queries query_generator =
     (False, failed_queries, query_generator)"
| "alternative_loop search svc slide_title bullets (retry_num # rest) failed_queries
       query_generator =
     (let (alt_query, query_generator') =
            generate_alternative_query svc query_generator slide_title bullets failed_queries
      in if search (length failed_queries) alt_query
         then (True, failed_queries @ [alt_query], query_generator')
         else alternative_loop search svc slide_title bullets rest
                (failed_queries @ [alt_query]) query_generator')"

definition search_and_download ::
  "(nat \<Rightarrow> string \<Rightarrow> bool) \<Rightarrow> service \<Rightarrow> string \<Rightarrow> gemini_state option \<Rightarrow> string option
     \<Rightarrow> string list option \<Rightarrow> bool \<times> string list \<times> gemini_state option" where
  "search_and_download search svc query query_generator slide_title bullets =
     (if search 0 query then (True, [query], query_generator)
      else
        let failed_queries = [query];
            words = split_ws query
        in if length words > 1 \<and> search (length failed_queries) (hd words)
           then (True, failed_queries @ [hd words], query_generator)
           else
             let failed_queries1 =
                   (if length words > 1 then failed_queries @ [hd words] else failed_queries)
             in case (query_generator, slide_title, bullets) of
                  (Some qg, Some title, Some bs) \<Rightarrow>
                    if title \<noteq> [] \<and> bs \<noteq> []
                    then (case alternative_loop search svc title bs [0 ..< 2] failed_queries1 qg of
                            (True, tried, qg') \<Rightarrow> (True, tried, Some qg')
                          | (False, failed_queries2, qg') \<Rightarrow>
                              (search (length failed_queries2) ''circle'',
                               failed_queries2 @ [''circle''], Some qg'))
                    else (search (length failed_queries1) ''circle'',
                          failed_queries1 @ [''circle''], query_generator)
                | _ \<Rightarrow> (search (length failed_queries1) ''circle'',
                        failed_queries1 @ [''circle''], query_generator))"

section \<open>Deck renderer: the word wrap of \<open>pdf_slide_creator.py\<close>\<close>

text \<open>
  \<open>c.stringWidth(line, font, size)\<close> is the font metric of the rendering library; the
  model takes it as the function \<open>width\<close>, into any linearly ordered type.
\<close>

fun wrap_loop ::
  "(string \<Rightarrow> 'w::linorder) \<Rightarrow> 'w \<Rightarrow> string list \<Rightarrow> string list \<Rightarrow> string
     \<Rightarrow> string list \<times> string" where
  \<comment> \<open>\<open>for word in words\<close>, on \<open>lines\<close> and \<open>current_line\<close>\<close>
  "wrap_loop width max_width [] lines current_line = (lines, current_line)"
| "wrap_loop width max_width (word # rest) lines current_line =
     (let test_line = current_line @ (if current_line \<noteq> [] then '' '' else []) @ word
      in if width test_line < max_width
         then wrap_loop width max_width rest lines test_line
         else wrap_loop width max_width rest
                (if current_line \<noteq> [] then lines @ [current_line] else lines) word)"

definition wrap_text :: "(string \<Rightarrow> 'w::linorder) \<Rightarrow> 'w \<Rightarrow> string \<Rightarrow> string list" where
  \<comment> \<open>\<open>PDFSlideCreator._wrap_text\<close>\<close>
  "wrap_text width max_width text =
     (let (lines, current_line) = wrap_loop width max_width (split_ws text) [] []
      in if current_line \<noteq> [] then lines @ [current_line] else lines)"

definition wrap_bullet :: "(string \<Rightarrow> 'w::linorder) \<Rightarrow> 'w \<Rightarrow> string \<Rightarrow> string list" where
  \<comment> \<open>the same loop written out in \<open>_create_content_slide\<close>, on \<open>f"- {bullet}"\<close>\<close>
  "wrap_bullet width max_text_width bullet =
     (let (lines, current_line) = wrap_loop width max_text_width (split_ws (''- '' @ bullet)) [] []
      in if current_line \<noteq> [] then lines @ [current_line] else lines)"

section \<open>Video assembler: \<open>video_creator.py\<close>\<close>

definition slide_image_path :: "string \<Rightarrow> nat \<Rightarrow> string" where
  \<comment> \<open>\<open>output_dir / f"slide_{i:02d}.png"\<close>\<close>
  "slide_image_path output_dir i = output_dir @ ''/slide_'' @ pad2 i @ ''.png''"

definition audio_file_path :: "string \<Rightarrow> nat \<Rightarrow> string" where
  \<comment> \<open>\<open>output_dir / f"audio_{i:02d}.mp3"\<close>\<close>
  "audio_file_path output_dir i = output_dir @ ''/audio_'' @ pad2 i @ ''.mp3''"

definition convert_pdf_to_images :: "nat option \<Rightarrow> string \<Rightarrow> error + string list" where
  \<comment> \<open>the first argument is the number of pages of the PDF at \<open>pdf_path\<close>, \<open>None\<close> when
      there is no such file\<close>
  "convert_pdf_to_images pdf output_dir =
     (case pdf of
        None \<Rightarrow> Inl FileNotFoundError
      | Some n \<Rightarrow> Inr (map (slide_image_path output_dir) [0 ..< n]))"

definition default_title_duration :: real where
  \<comment> \<open>\<open>title_duration: float = 3.0\<close>\<close>
  "default_title_duration = 3"

text \<open>
  The speech service (\<open>gTTS(...).save\<close>, then the duration of the saved clip) is an
  oracle: for the slide number and the text, the duration of the clip, or \<open>None\<close> when
  it raises.
\<close>

fun tts_loop ::
  "(nat \<Rightarrow> json \<Rightarrow> real option) \<Rightarrow> (json \<Rightarrow> string) \<Rightarrow> string \<Rightarrow> nat \<Rightarrow> json list
     \<Rightarrow> (string option \<times> real) list \<Rightarrow> error + (string option \<times> real) list" where
  \<comment> \<open>\<open>for i, slide in enumerate(data['content_slides'], 1)\<close>\<close>
  "tts_loop tts fmt output_dir i [] audio_clips = Inr audio_clips"
| "tts_loop tts fmt output_dir i (slide # rest) audio_clips =
     (case py_getitem slide ''title'' of
        None \<Rightarrow> Inl KeyError
      | Some t \<Rightarrow>
     (case py_slice 50 t of
        None \<Rightarrow> Inl TypeError
      | Some shown \<Rightarrow>
     (case narration_text fmt slide of
        Inl e \<Rightarrow> Inl e
      | Inr text \<Rightarrow>
     (case tts i text of
        None \<Rightarrow> Inl SpeechError
      | Some duration \<Rightarrow>
          tts_loop tts fmt output_dir (i + 1) rest
            (audio_clips @ [(Some (audio_file_path output_dir i), duration)])))))"

definition generate_tts_audio ::
  "(nat \<Rightarrow> json \<Rightarrow> real option) \<Rightarrow> (json \<Rightarrow> string) \<Rightarrow> json option \<Rightarrow> string \<Rightarrow> real
     \<Rightarrow> error + (string option \<times> real) list" where
  \<comment> \<open>the third argument is the parsed content of the slides JSON file, \<open>None\<close> when there
      is no such file\<close>
  "generate_tts_audio tts fmt slides_file output_dir title_duration =
     (case slides_file of
        None \<Rightarrow> Inl FileNotFoundError
      | Some data \<Rightarrow>
          (case py_getitem data ''content_slides'' of
             None \<Rightarrow> Inl KeyError
           | Some content_slides \<Rightarrow>
               (case py_iter content_slides of
                  None \<Rightarrow> Inl TypeError
                | Some slides \<Rightarrow>
                    tts_loop tts fmt output_dir 1 slides [(None, title_duration)])))"

record video_clip =
  clip_image :: string
  clip_audio :: "string option"
  clip_duration :: real

definition create_video ::
  "(string \<Rightarrow> bool) \<Rightarrow> string list \<Rightarrow> (string option \<times> real) list \<Rightarrow> video_clip list" where
  \<comment> \<open>the clips of \<open>VideoCreator.create_video\<close>, in the order in which they are
      concatenated; the first argument is \<open>os.path.exists\<close>\<close>
  "create_video path_exists slide_images audio_clips =
     map (\<lambda>(img_path, (audio_path, duration)).
            \<lparr>clip_image = img_path,
             clip_audio = (case audio_path of
                             None \<Rightarrow> None
                           | Some a \<Rightarrow> if a \<noteq> [] \<and> path_exists a then Some a else None),
             clip_duration = duration\<rparr>)
         (zip slide_images audio_clips)"

text \<open>
  The files on disk when \<open>create_video_complete\<close> starts: for each of the two
  directories, \<open>None\<close> when it does not exist, otherwise the paths that match
  \<open>slide_*.png\<close> and \<open>audio_*.mp3\<close> in it.
\<close>

record disk =
  images_found :: "string list option"
  audio_found :: "string list option"

definition create_video_complete ::
  "disk \<Rightarrow> (string \<Rightarrow> real) \<Rightarrow> (string \<Rightarrow> bool) \<Rightarrow> (nat \<Rightarrow> json \<Rightarrow> real option)
     \<Rightarrow> (json \<Rightarrow> string) \<Rightarrow> nat option \<Rightarrow> json option \<Rightarrow> string \<Rightarrow> string
     \<Rightarrow> error + video_clip list" where
  \<comment> \<open>\<open>duration_of\<close> is the duration of an audio file already on disk\<close>
  "create_video_complete d duration_of path_exists tts fmt pdf slides_file images_dir audio_dir =
     (case (case images_found d of
              None \<Rightarrow> convert_pdf_to_images pdf images_dir
            | Some [] \<Rightarrow> convert_pdf_to_images pdf images_dir
            | Some found \<Rightarrow> Inr (sort found)) of
        Inl e \<Rightarrow> Inl e
      | Inr slide_images \<Rightarrow>
          (case (case audio_found d of
                   None \<Rightarrow> generate_tts_audio tts fmt slides_file audio_dir default_title_duration
                 | Some [] \<Rightarrow>
                     generate_tts_audio tts fmt slides_file audio_dir default_title_duration
                 | Some found \<Rightarrow>
                     Inr (map (\<lambda>audio_file. (Some audio_file, duration_of audio_file))
                            (sort found))) of
             Inl e \<Rightarrow> Inl e
           | Inr audio_clips \<Rightarrow> Inr (create_video path_exists slide_images audio_clips)))"

section \<open>Concrete collaborators, for evaluating the model\<close>

definition svc_second_key :: service where
  \<comment> \<open>a service whose credential \<open>k1\<close> works and whose other credentials are over quota\<close>
  "svc_second_key attempt key p =
     (if key = ''k1'' then Inr ''ok'' else Inl ''429 Quota exceeded'')"

definition courier10_width :: "string \<Rightarrow> nat" where
  \<comment> \<open>the width of a line in Courier at 10 points: 6 points for every character\<close>
  "courier10_width s = 6 * length s"



definition svc_empty_replies :: service where
  \<comment> \<open>a service that answers the title prompt with an empty JSON object and every other
      prompt with an empty JSON array\<close>
  "svc_empty_replies attempt key p = (case p of TitlePrompt t \<Rightarrow> Inr ''{}'' | _ \<Rightarrow> Inr ''[]'')"

definition loads_tiny :: "string \<Rightarrow> json option" where
  \<comment> \<open>\<open>json.loads\<close> on the two documents \<open>{}\<close> and \<open>[]\<close>; no other document is parsed in
      the evaluations\<close>
  "loads_tiny s =
     (if s = ''{}'' then Some (JObj []) else if s = ''[]'' then Some (JArr []) else None)"

definition str_unused :: "json \<Rightarrow> string" where
  \<comment> \<open>stands for Python's \<open>str()\<close> where the evaluation never calls it\<close>
  "str_unused j = []"

definition tts_by_length :: "nat \<Rightarrow> json \<Rightarrow> real option" where
  \<comment> \<open>a speech service whose clip for a string lasts one second per character, and which
      raises on anything that is not a string\<close>
  "tts_by_length i text = (case text of JStr s \<Rightarrow> Some (real (length s)) | _ \<Rightarrow> None)"

definition two_slides :: json where
  \<comment> \<open>a slides file with two content slides, the second without speaker notes\<close>
  "two_slides =
     JObj [(''title_slide'', JObj [(''title'', JStr ''Deck''), (''subtitle'', JStr ''Sub'')]),
           (''content_slides'',
              JArr [mk_slide (JStr ''Intro'') (JArr [JStr ''a'', JStr ''b'']) (JStr ''Welcome''),
                    mk_slide (JStr ''Plan'') (JArr [JStr ''x'', JStr ''y'']) (JStr '''')]),
           (''total_slides'', JNum 3),
           (''narration_script'', JStr ''Welcome Plan. x y'')]"

definition five_seconds :: "string \<Rightarrow> real" where
  \<comment> \<open>every audio file on disk lasts five seconds\<close>
  "five_seconds audio_file = 5"

definition all_paths_exist :: "string \<Rightarrow> bool" where
  "all_paths_exist p = True"

definition disk_empty :: disk where
  \<comment> \<open>before the first run: neither directory exists\<close>
  "disk_empty = \<lparr>images_found = None, audio_found = None\<rparr>"

definition disk_after_run :: disk where
  \<comment> \<open>what a run on a deck of a title slide and two content slides leaves on disk\<close>
  "disk_after_run =
     \<lparr>images_found = Some [''img/slide_00.png'', ''img/slide_01.png'', ''img/slide_02.png''],
      audio_found = Some [''audio/audio_01.mp3'', ''audio/audio_02.mp3'']\<rparr>"

definition search_never :: "nat \<Rightarrow> string \<Rightarrow> bool" where
  \<comment> \<open>an icon service on which every attempt fails\<close>
  "search_never attempt query = False"

definition svc_suggest :: service where
  \<comment> \<open>a service that suggests one alternative after two failed queries and another one
      after that\<close>
  "svc_suggest attempt key p =
     (case p of
        AlternativePrompt slide_title bullets failed_queries \<Rightarrow>
          Inr (if length failed_queries = 2 then ''Graph'' else ''bar diagram'')
      | _ \<Rightarrow> Inr ''chart'')"

definition search_graph :: "nat \<Rightarrow> string \<Rightarrow> bool" where
  \<comment> \<open>an icon service that has an icon for the query \<open>graph\<close> only\<close>
  "search_graph attempt query = (query = ''graph'')"






section \<open>Properties of the extractor\<close>

lemma PDFParser_init_num_pages:
  assumes "PDFParser_init fs pdf_path = Inr self"
  shows "num_pages self = length (doc self)"
  using assms by (auto simp: PDFParser_init_def split: option.splits)

lemma extract_text_from_page_keeps_doc:
  assumes "extract_text_from_page self page_num = Inr (t, self')"
  shows "doc self' = doc self \<and> num_pages self' = num_pages self"
  using assms by (auto simp: extract_text_from_page_def Let_def split: if_splits)

lemma extract_text_from_page_cases:
  assumes "page_num < length (doc self)"
  shows "\<exists>t self'. extract_text_from_page self page_num = Inr (t, self')
           \<and> doc self' = doc self \<and> num_pages self' = num_pages self
           \<and> pdf_name self' = pdf_name self
           \<and> stats_total (extraction_stats self') = stats_total (extraction_stats self) + 1"
  using assms by (simp add: extract_text_from_page_def Let_def stats_total_def)

lemma process_pages_total:
  assumes "\<forall>n \<in> set ns. n < length (doc self)"
  shows "\<exists>ps self'. process_pages self ns acc = Inr (ps, self')
           \<and> doc self' = doc self \<and> num_pages self' = num_pages self
           \<and> length ps = length acc + length ns
           \<and> stats_total (extraction_stats self')
               = stats_total (extraction_stats self) + length ns"
  using assms
proof (induction ns arbitrary: self acc)
  case Nil
  then show ?case by simp
next
  case (Cons n ns)
  from Cons.prems have "n < length (doc self)" by simp
  from extract_text_from_page_cases[OF this] obtain t self1 where
    s: "extract_text_from_page self n = Inr (t, self1)"
       "doc self1 = doc self" "num_pages self1 = num_pages self"
       "stats_total (extraction_stats self1) = stats_total (extraction_stats self) + 1"
    by blast
  from Cons.prems s(2) have "\<forall>m \<in> set ns. m < length (doc self1)" by simp
  from Cons.IH[OF this] obtain ps self' where
    r: "process_pages self1 ns
          (acc @ [\<lparr>entry_page_num = n + 1, entry_text = t, char_count = length t,
                    word_count = length (split_ws t)\<rparr>]) = Inr (ps, self')"
       "doc self' = doc self1" "num_pages self' = num_pages self1"
       "length ps = length (acc @ [\<lparr>entry_page_num = n + 1, entry_text = t,
                    char_count = length t, word_count = length (split_ws t)\<rparr>]) + length ns"
       "stats_total (extraction_stats self') = stats_total (extraction_stats self1) + length ns"
    by blast
  show ?case using s r by simp
qed

text \<open>
  C5. For every page of the document, \<open>extract_text_from_page\<close> returns the (stripped)
  digital text when it has more than 100 characters; otherwise it runs OCR and returns
  the (stripped) OCR text if that is strictly longer than the digital text, and the
  digital text otherwise.
\<close>

theorem C5_extract_text_from_page_triage:
  assumes "page_num < length (doc self)"
  shows "\<exists>self'. extract_text_from_page self page_num =
           Inr (let digital_text = strip (get_text (doc self ! page_num));
                    ocr_text = strip (ocr_page (doc self ! page_num))
                in if length digital_text > 100 then digital_text
                   else if length ocr_text > length digital_text then ocr_text
                   else digital_text, self')"
  using assms
  by (simp add: extract_text_from_page_def Let_def MIN_DIGITAL_TEXT_THRESHOLD_def)

theorem C5_extract_text_from_page_triage_witness:
  "\<exists>self'. extract_text_from_page
     \<lparr>pdf_name = ''a.pdf'', doc = [\<lparr>get_text = ''7 '', ocr_page = '' Scanned page ''\<rparr>],
      num_pages = 1, extraction_stats = zero_stats\<rparr> 0 = Inr (''Scanned page'', self')"
proof -
  have pre: "(0::nat) < length (doc \<lparr>pdf_name = ''a.pdf'',
      doc = [\<lparr>get_text = ''7 '', ocr_page = '' Scanned page ''\<rparr>],
      num_pages = 1, extraction_stats = zero_stats\<rparr>)" by simp
  show ?thesis
    using C5_extract_text_from_page_triage[OF pre]
    by (simp add: strip_def strip_chars_def is_space_def Let_def)
qed

text \<open>
  C10. After every call to \<open>extract_structured_content\<close> on a parser as the constructor
  builds it (\<open>num_pages\<close> is the length of the document), the call returns, and the
  extraction statistics satisfy
  \<open>digital_pages + ocr_pages + hybrid_pages = num_pages\<close>, whatever the counters held
  before the call: they are reset first, and every page increments exactly one of them.
\<close>

theorem C10_extraction_stats_sum:
  assumes "num_pages self = length (doc self)"
  shows "\<exists>c self'. extract_structured_content self = Inr (c, self')
           \<and> digital_pages (extraction_stats self') + ocr_pages (extraction_stats self')
               + hybrid_pages (extraction_stats self') = num_pages self
           \<and> content_stats c = extraction_stats self'
           \<and> content_num_pages c = num_pages self
           \<and> length (pages c) = num_pages self"
proof -
  let ?self0 = "self\<lparr>extraction_stats := zero_stats\<rparr>"
  have "\<forall>n \<in> set [0 ..< num_pages ?self0]. n < length (doc ?self0)"
    using assms by simp
  from process_pages_total[OF this, of "[]"] obtain ps self' where
    r: "process_pages ?self0 [0 ..< num_pages ?self0] [] = Inr (ps, self')"
       "num_pages self' = num_pages ?self0"
       "length ps = length ([]::page_entry list) + length [0 ..< num_pages ?self0]"
       "stats_total (extraction_stats self')
          = stats_total (extraction_stats ?self0) + length [0 ..< num_pages ?self0]"
    by blast
  have z: "stats_total (extraction_stats ?self0) = 0"
    by (simp add: stats_total_def zero_stats_def)
  have "extract_structured_content self =
          Inr (\<lparr>filename = pdf_name self', content_num_pages = num_pages self',
                pages = ps, full_text = join [CHR 0x0A, CHR 0x0A] (map entry_text ps),
                content_stats = extraction_stats self'\<rparr>, self')"
    using r(1) by (simp add: extract_structured_content_def Let_def)
  moreover have "stats_total (extraction_stats self') = num_pages self"
    using r(4) z by simp
  ultimately show ?thesis
    using r(2,3) by (simp add: stats_total_def)
qed

theorem C10_extraction_stats_sum_witness:
  "\<exists>c self'. extract_structured_content
       \<lparr>pdf_name = ''a.pdf'',
        doc = [\<lparr>get_text = ''7 '', ocr_page = '' Scanned page ''\<rparr>,
               \<lparr>get_text = ''Header'', ocr_page = ''''\<rparr>],
        num_pages = 2,
        extraction_stats = \<lparr>digital_pages = 5, ocr_pages = 5, hybrid_pages = 5\<rparr>\<rparr>
     = Inr (c, self')
     \<and> digital_pages (extraction_stats self') + ocr_pages (extraction_stats self')
         + hybrid_pages (extraction_stats self') = 2"
  using C10_extraction_stats_sum[of
       "\<lparr>pdf_name = ''a.pdf'',
        doc = [\<lparr>get_text = ''7 '', ocr_page = '' Scanned page ''\<rparr>,
               \<lparr>get_text = ''Header'', ocr_page = ''''\<rparr>],
        num_pages = 2,
        extraction_stats = \<lparr>digital_pages = 5, ocr_pages = 5, hybrid_pages = 5\<rparr>\<rparr>"]
  by (simp del: ex_simps) blast

section \<open>Properties of the AI text service wrapper\<close>

lemma try_next_key_True:
  assumes "current_key_index self + 1 < length (api_keys self)"
  shows "try_next_key self =
           (True, self\<lparr>current_key_index := current_key_index self + 1,
                        client := Some (api_keys self ! (current_key_index self + 1))\<rparr>)"
  using assms by (simp add: try_next_key_def init_client_def Let_def)

lemma try_next_key_False:
  assumes "\<not> current_key_index self + 1 < length (api_keys self)"
  shows "try_next_key self = (False, self\<lparr>current_key_index := current_key_index self + 1\<rparr>)"
  using assms by (simp add: try_next_key_def Let_def)

lemma call_gemini_loop_rotate:
  assumes "current_key_index self + m < length (api_keys self)"
    and "client self = Some (api_keys self ! current_key_index self)"
    and "\<forall>j<m. \<exists>msg. svc (a + j) (api_keys self ! (current_key_index self + j)) p = Inl msg
                      \<and> is_rate_limit msg"
  shows "\<exists>last'. call_gemini_loop svc p [a ..< a + m + k] lst self =
           call_gemini_loop svc p [a + m ..< a + m + k] last'
             (self\<lparr>current_key_index := current_key_index self + m,
                    client := Some (api_keys self ! (current_key_index self + m))\<rparr>)"
  using assms
proof (induction m arbitrary: a self lst)
  case 0
  have "self\<lparr>client := Some (api_keys self ! current_key_index self)\<rparr> = self"
    using "0.prems"(2)[symmetric] by simp
  then show ?case by auto
next
  case (Suc m)
  let ?i = "current_key_index self"
  let ?self1 = "self\<lparr>current_key_index := ?i + 1, client := Some (api_keys self ! (?i + 1))\<rparr>"
  from Suc.prems(3) obtain msg where
    msg: "svc a (api_keys self ! ?i) p = Inl msg" "is_rate_limit msg"
    by force
  have nxt: "try_next_key self = (True, ?self1)"
    using Suc.prems(1) by (intro try_next_key_True) simp
  have upt: "[a ..< a + Suc m + k] = a # [a + 1 ..< (a + 1) + m + k]"
    by (subst upt_rec) simp
  have step: "call_gemini_loop svc p [a ..< a + Suc m + k] lst self =
              call_gemini_loop svc p [a + 1 ..< (a + 1) + m + k] (Some msg) ?self1"
    unfolding upt using msg nxt Suc.prems(2)
    by (simp add: generate_content_def)
  have p1: "current_key_index ?self1 + m < length (api_keys ?self1)"
    using Suc.prems(1) by simp
  have p2: "client ?self1 = Some (api_keys ?self1 ! current_key_index ?self1)"
    by simp
  have p3: "\<forall>j<m. \<exists>msg. svc ((a + 1) + j) (api_keys ?self1 ! (current_key_index ?self1 + j)) p = Inl msg
                      \<and> is_rate_limit msg"
  proof (intro allI impI)
    fix j assume "j < m"
    then have "Suc j < Suc m" by simp
    with Suc.prems(3) have "\<exists>msg. svc (a + Suc j) (api_keys self ! (?i + Suc j)) p = Inl msg
                      \<and> is_rate_limit msg" by blast
    then show "\<exists>msg. svc ((a + 1) + j) (api_keys ?self1 ! (current_key_index ?self1 + j)) p = Inl msg
                      \<and> is_rate_limit msg" by simp
  qed
  from Suc.IH[OF p1 p2 p3, of "Some msg"] obtain last' where
    "call_gemini_loop svc p [a + 1 ..< (a + 1) + m + k] (Some msg) ?self1 =
       call_gemini_loop svc p [(a + 1) + m ..< (a + 1) + m + k] last'
         (?self1\<lparr>current_key_index := current_key_index ?self1 + m,
                    client := Some (api_keys ?self1 ! (current_key_index ?self1 + m))\<rparr>)"
    by blast
  then have "call_gemini_loop svc p [a ..< a + Suc m + k] lst self =
       call_gemini_loop svc p [a + Suc m ..< a + Suc m + k] last'
         (self\<lparr>current_key_index := current_key_index self + Suc m,
                client := Some (api_keys self ! (current_key_index self + Suc m))\<rparr>)"
    using step by simp
  then show ?case by (rule exI)
qed

lemma call_gemini_after_rotations:
  assumes "current_key_index self + m < length (api_keys self)"
    and "client self = Some (api_keys self ! current_key_index self)"
    and "\<forall>j<m. \<exists>msg. svc j (api_keys self ! (current_key_index self + j)) p = Inl msg
                      \<and> is_rate_limit msg"
  shows "\<exists>last' rest. call_gemini svc p self =
           call_gemini_loop svc p (m # rest) last'
             (self\<lparr>current_key_index := current_key_index self + m,
                    client := Some (api_keys self ! (current_key_index self + m))\<rparr>)"
proof -
  from assms(1) have "m < length (api_keys self)" by simp
  define k where "k = length (api_keys self) - Suc m"
  have k: "length (api_keys self) = m + Suc k"
    using \<open>m < length (api_keys self)\<close> by (simp add: k_def)
  from assms(3) have a3: "\<forall>j<m. \<exists>msg. svc (0 + j) (api_keys self ! (current_key_index self + j)) p = Inl msg
                      \<and> is_rate_limit msg" by simp
  from call_gemini_loop_rotate[where self=self and m=m and svc=svc and p=p and a=0 and k="Suc k" and lst=None, OF assms(1,2) a3] obtain last' where
    r: "call_gemini_loop svc p [0 ..< 0 + m + Suc k] None self =
           call_gemini_loop svc p [0 + m ..< 0 + m + Suc k] last'
             (self\<lparr>current_key_index := current_key_index self + m,
                    client := Some (api_keys self ! (current_key_index self + m))\<rparr>)"
    by blast
  have u: "[0 + m ..< 0 + m + Suc k] = m # [Suc m ..< m + Suc k]"
    by (subst upt_rec) simp
  have c: "call_gemini svc p self = call_gemini_loop svc p [0 ..< 0 + m + Suc k] None self"
    by (simp add: call_gemini_def k)
  have "call_gemini svc p self =
           call_gemini_loop svc p (m # [Suc m ..< m + Suc k]) last'
             (self\<lparr>current_key_index := current_key_index self + m,
                    client := Some (api_keys self ! (current_key_index self + m))\<rparr>)"
    unfolding c r u ..
  then show ?thesis by (intro exI)
qed

lemma call_gemini_loop_exhausted:
  "call_gemini_loop svc p atts lst self = (Inl (AllKeysFailed e), self') \<Longrightarrow>
     client self \<noteq> None \<Longrightarrow>
     length (api_keys self) \<le> current_key_index self'
       \<or> current_key_index self + length atts \<le> current_key_index self'"
proof (induction atts arbitrary: lst self)
  case Nil
  then show ?case by simp
next
  case (Cons a atts)
  show ?case
  proof (cases "generate_content svc a p self")
    case (Inr reply)
    with Cons.prems show ?thesis by simp
  next
    case (Inl em)
    obtain ex msg where em: "em = (ex, msg)" by (cases em)
    show ?thesis
    proof (cases "is_rate_limit msg")
      case False
      with Cons.prems Inl em show ?thesis
        by (auto simp: generate_content_def split: option.splits sum.splits)
    next
      case True
      show ?thesis
      proof (cases "current_key_index self + 1 < length (api_keys self)")
        case lt: True
        let ?self1 = "self\<lparr>current_key_index := current_key_index self + 1,
                        client := Some (api_keys self ! (current_key_index self + 1))\<rparr>"
        from Cons.prems(1) Inl em True try_next_key_True[OF lt]
        have "call_gemini_loop svc p atts (Some msg) ?self1 = (Inl (AllKeysFailed e), self')"
          by simp
        from Cons.IH[OF this] show ?thesis by auto
      next
        case ge: False
        from Cons.prems(1) Inl em True try_next_key_False[OF ge]
        have "self' = self\<lparr>current_key_index := current_key_index self + 1\<rparr>" by simp
        with ge show ?thesis by simp
      qed
    qed
  qed
qed

text \<open>
  C7. A call to \<open>_call_gemini\<close> on a wrapper whose client holds its current credential:
  as long as the service raises errors whose message carries a rate-limit signature
  (\<open>rate\<close>, \<open>quota\<close>, \<open>limit\<close> or \<open>resource_exhausted\<close>, in any letter case), the
  wrapper rotates to the next credential of the pool and retries with it. After \<open>m\<close>
  such failures, the request made with credential \<open>current_key_index + m\<close> decides:
  a response is returned; an error without a signature is propagated at once, with no
  further rotation; a signature error on the last credential raises "all keys failed".
  That last error is raised only once the index has moved past the whole pool.
\<close>

theorem C7_call_gemini_rotation:
  assumes "current_key_index self + m < length (api_keys self)"
    and "client self = Some (api_keys self ! current_key_index self)"
    and "\<forall>j<m. \<exists>msg. svc j (api_keys self ! (current_key_index self + j)) p = Inl msg
                      \<and> is_rate_limit msg"
  shows "(\<forall>text. svc m (api_keys self ! (current_key_index self + m)) p = Inr text \<longrightarrow>
            call_gemini svc p self =
              (Inr text, self\<lparr>current_key_index := current_key_index self + m,
                    client := Some (api_keys self ! (current_key_index self + m))\<rparr>))
       \<and> (\<forall>msg. svc m (api_keys self ! (current_key_index self + m)) p = Inl msg
                \<and> \<not> is_rate_limit msg \<longrightarrow>
            call_gemini svc p self =
              (Inl (ServiceError msg), self\<lparr>current_key_index := current_key_index self + m,
                    client := Some (api_keys self ! (current_key_index self + m))\<rparr>))
       \<and> (\<forall>msg. svc m (api_keys self ! (current_key_index self + m)) p = Inl msg
                \<and> is_rate_limit msg
                \<and> current_key_index self + m + 1 = length (api_keys self) \<longrightarrow>
            call_gemini svc p self =
              (Inl (AllKeysFailed (Some msg)),
               self\<lparr>current_key_index := length (api_keys self),
                    client := Some (api_keys self ! (current_key_index self + m))\<rparr>))
       \<and> (\<forall>e. fst (call_gemini svc p self) = Inl (AllKeysFailed e) \<longrightarrow>
            length (api_keys self) \<le> current_key_index (snd (call_gemini svc p self)))"
proof -
  let ?st = "self\<lparr>current_key_index := current_key_index self + m,
                    client := Some (api_keys self ! (current_key_index self + m))\<rparr>"
  from call_gemini_after_rotations[where self=self and m=m and svc=svc and p=p, OF assms] obtain last' rest where
    eq: "call_gemini svc p self = call_gemini_loop svc p (m # rest) last' ?st"
    by blast
  have c1: "call_gemini svc p self = (Inr reply, ?st)"
    if "svc m (api_keys self ! (current_key_index self + m)) p = Inr reply" for reply
    using that unfolding eq by (simp add: generate_content_def)
  have c2: "call_gemini svc p self = (Inl (ServiceError msg), ?st)"
    if "svc m (api_keys self ! (current_key_index self + m)) p = Inl msg \<and> \<not> is_rate_limit msg" for msg
    using that unfolding eq by (simp add: generate_content_def)
  have c3: "call_gemini svc p self = (Inl (AllKeysFailed (Some msg)),
               self\<lparr>current_key_index := length (api_keys self),
                    client := Some (api_keys self ! (current_key_index self + m))\<rparr>)"
    if "svc m (api_keys self ! (current_key_index self + m)) p = Inl msg \<and> is_rate_limit msg
          \<and> current_key_index self + m + 1 = length (api_keys self)" for msg
  proof -
    have "\<not> current_key_index ?st + 1 < length (api_keys ?st)" using that by simp
    from try_next_key_False[OF this] that show ?thesis
      unfolding eq by (simp add: generate_content_def)
  qed
  have c4: "length (api_keys self) \<le> current_key_index (snd (call_gemini svc p self))"
    if "fst (call_gemini svc p self) = Inl (AllKeysFailed e)" for e
  proof -
    obtain r self' where rs: "call_gemini svc p self = (r, self')" by (cases "call_gemini svc p self")
    with that have "call_gemini_loop svc p [0 ..< length (api_keys self)] None self
                      = (Inl (AllKeysFailed e), self')"
      by (simp add: call_gemini_def)
    from call_gemini_loop_exhausted[OF this] assms(2) rs show ?thesis by auto
  qed
  from c1 c2 c3 c4 show ?thesis by blast
qed


theorem C7_call_gemini_rotation_witness:
  "call_gemini svc_second_key (TitlePrompt ''doc'') (gemini_init [''k0'', ''k1'', ''k2''] ''m'')
     = (Inr ''ok'', \<lparr>api_keys = [''k0'', ''k1'', ''k2''], model_name = ''m'',
                       current_key_index = 1, client = Some ''k1''\<rparr>)"
  using C7_call_gemini_rotation[of "gemini_init [''k0'', ''k1'', ''k2''] ''m''" 1
          svc_second_key "TitlePrompt ''doc''"]
  by (simp add: gemini_init_def init_client_def svc_second_key_def is_rate_limit_def
        lower_def lower_char_def)

section \<open>Properties of the word wrap\<close>

lemma wrap_loop_lines:
  assumes "\<forall>l \<in> set lines. width l < max_width \<or> l \<in> W"
    and "current_line = [] \<or> width current_line < max_width \<or> current_line \<in> W"
    and "set ws \<subseteq> W"
    and "wrap_loop width max_width ws lines current_line = (lines', current_line')"
  shows "(\<forall>l \<in> set lines'. width l < max_width \<or> l \<in> W)
         \<and> (current_line' = [] \<or> width current_line' < max_width \<or> current_line' \<in> W)"
  using assms
proof (induction ws arbitrary: lines current_line)
  case Nil
  then show ?case by simp
next
  case (Cons word rest)
  let ?test = "current_line @ (if current_line \<noteq> [] then '' '' else []) @ word"
  show ?case
  proof (cases "width ?test < max_width")
    case True
    with Cons.prems(4) have "wrap_loop width max_width rest lines ?test = (lines', current_line')"
      by (simp add: Let_def)
    moreover have "set rest \<subseteq> W" using Cons.prems(3) by simp
    ultimately show ?thesis
      using Cons.IH[of lines ?test] Cons.prems(1) True by blast
  next
    case False
    let ?lines = "if current_line \<noteq> [] then lines @ [current_line] else lines"
    from False Cons.prems(4)
    have run: "wrap_loop width max_width rest ?lines word = (lines', current_line')"
      by (simp add: Let_def)
    have l: "\<forall>l \<in> set ?lines. width l < max_width \<or> l \<in> W"
      using Cons.prems(1,2) by auto
    have w: "word = [] \<or> width word < max_width \<or> word \<in> W"
      using Cons.prems(3) by simp
    have r: "set rest \<subseteq> W" using Cons.prems(3) by simp
    from Cons.IH[OF l w r run] show ?thesis .
  qed
qed

lemma wrap_loop_emitted:
  assumes "wrap_loop width max_width ws [] [] = (lines, current_line)"
    and "line \<in> set (if current_line \<noteq> [] then lines @ [current_line] else lines)"
  shows "width line < max_width \<or> line \<in> set ws"
proof -
  have "(\<forall>l \<in> set lines. width l < max_width \<or> l \<in> set ws)
         \<and> (current_line = [] \<or> width current_line < max_width \<or> current_line \<in> set ws)"
    by (rule wrap_loop_lines[where lines="[]" and current_line="[]" and ws=ws, OF _ _ _ assms(1)])
       simp_all
  with assms(2) show ?thesis by (auto split: if_splits)
qed

text \<open>
  C4. The greedy fill extends the current line with the next word while
  the measured width of the extended line stays strictly under the maximum. Every line
  that the word wrap emits, in \<open>_wrap_text\<close> and in the loop of \<open>_create_content_slide\<close>,
  therefore either measures strictly under the maximum or is one single word of the
  text: a word is never broken. When every word alone measures under the maximum,
  every emitted line does.
\<close>

theorem C4_wrap_text_width:
  "(\<forall>line \<in> set (wrap_text width max_width text).
       width line < max_width \<or> line \<in> set (split_ws text))
   \<and> (\<forall>line \<in> set (wrap_bullet width max_width bullet).
       width line < max_width \<or> line \<in> set (split_ws (''- '' @ bullet)))
   \<and> ((\<forall>word \<in> set (split_ws text). width word < max_width) \<longrightarrow>
       (\<forall>line \<in> set (wrap_text width max_width text). width line < max_width))"
proof -
  have a: "width line < max_width \<or> line \<in> set (split_ws text)"
    if "line \<in> set (wrap_text width max_width text)" for line
  proof -
    obtain lines current_line where
      r: "wrap_loop width max_width (split_ws text) [] [] = (lines, current_line)"
      by (cases "wrap_loop width max_width (split_ws text) [] []")
    with that have "line \<in> set (if current_line \<noteq> [] then lines @ [current_line] else lines)"
      by (simp add: wrap_text_def)
    from wrap_loop_emitted[OF r this] show ?thesis .
  qed
  have b: "width line < max_width \<or> line \<in> set (split_ws (''- '' @ bullet))"
    if "line \<in> set (wrap_bullet width max_width bullet)" for line
  proof -
    obtain lines current_line where
      r: "wrap_loop width max_width (split_ws (''- '' @ bullet)) [] [] = (lines, current_line)"
      by (cases "wrap_loop width max_width (split_ws (''- '' @ bullet)) [] []")
    with that have "line \<in> set (if current_line \<noteq> [] then lines @ [current_line] else lines)"
      by (simp add: wrap_bullet_def)
    from wrap_loop_emitted[OF r this] show ?thesis .
  qed
  from a b show ?thesis by blast
qed

theorem C4_wrap_text_width_witness:
  "wrap_text courier10_width 50 ''one two three'' = [''one two'', ''three'']
   \<and> courier10_width ''one two'' < 50 \<and> courier10_width ''three'' < 50"
proof -
  have sp: "split_ws ''one two three'' = [''one'', ''two'', ''three'']"
    by (simp add: split_ws_def is_space_def)
  have e: "wrap_text courier10_width 50 ''one two three'' = [''one two'', ''three'']"
    by (simp add: wrap_text_def sp courier10_width_def Let_def)
  have w: "\<forall>word \<in> set (split_ws ''one two three''). courier10_width word < 50"
    by (simp add: sp courier10_width_def)
  from C4_wrap_text_width[of courier10_width 50 "''one two three''" "''''"] w
  have "\<forall>line \<in> set (wrap_text courier10_width 50 ''one two three''). courier10_width line < 50"
    by blast
  with e show ?thesis by simp
qed

theorem C4_long_word_counterexample:
  "wrap_text courier10_width 50 ''Internationalization now'' = [''Internationalization'', ''now'']
   \<and> \<not> courier10_width ''Internationalization'' \<le> 50"
  by (simp add: wrap_text_def split_ws_def is_space_def courier10_width_def Let_def)

section \<open>Properties of the summarizer\<close>












lemma extract_slides_from_pdf_text_shape:
  assumes "extract_slides_from_pdf_text svc loads fmt pdf_text num_slides keys = Inr out"
  shows "\<exists>title_slide content_slides script.
           out = JObj [(''title_slide'', title_slide),
                       (''content_slides'', JArr content_slides),
                       (''total_slides'', JNum (int (length content_slides) + 1)),
                       (''narration_script'', JStr script)]"
  using assms
  by (auto simp: extract_slides_from_pdf_text_def Let_def
           split: prod.splits sum.splits)

text \<open>
  C9. The output of \<open>extract_slides_from_pdf_text\<close> has the four fields, and
  \<open>total_slides\<close> is the number of content slides plus one (lemma
  \<open>extract_slides_from_pdf_text_shape\<close>). The title slide, however, is whatever JSON
  value the reply to the title prompt parses to: \<open>generate_title_slide\<close> returns it
  unchecked, where \<open>extract_key_points\<close> checks the fields of every content slide. At a
  reply that is the empty JSON object, the title slide has neither a title nor a
  subtitle.
\<close>

theorem C9_title_slide_unvalidated:
  "extract_slides_from_pdf_text svc_empty_replies loads_tiny str_unused
       ''Quarterly report'' 8 [''k0'']
     = Inr (JObj [(''title_slide'', JObj []),
                  (''content_slides'', JArr []),
                  (''total_slides'', JNum 1),
                  (''narration_script'', JStr [])])
   \<and> py_in ''title'' (JObj []) = Some False
   \<and> py_in ''subtitle'' (JObj []) = Some False"
  by (simp add: extract_slides_from_pdf_text_def generate_title_slide_def
        extract_key_points_def call_gemini_def generate_content_def gemini_init_def
        init_client_def svc_empty_replies_def loads_tiny_def strip_code_fence_def
        strip_def strip_chars_def is_space_def py_take_def summarize_for_video_def
        default_model_def Let_def)

section \<open>Properties of the narration stage\<close>

lemma tts_loop_clips:
  assumes "tts_loop tts fmt output_dir i slides acc = Inr clips"
  shows "\<exists>new. clips = acc @ new \<and> length new = length slides
           \<and> (\<forall>j<length slides. \<exists>spoken d.
                  narration_text fmt (slides ! j) = Inr spoken \<and> tts (i + j) spoken = Some d
                  \<and> new ! j = (Some (audio_file_path output_dir (i + j)), d))"
  using assms
proof (induction slides arbitrary: i acc)
  case Nil
  then show ?case by simp
next
  case (Cons slide rest)
  from Cons.prems obtain spoken d where
    s: "narration_text fmt slide = Inr spoken" "tts i spoken = Some d"
       "tts_loop tts fmt output_dir (i + 1) rest
          (acc @ [(Some (audio_file_path output_dir i), d)]) = Inr clips"
    by (auto split: option.splits sum.splits)
  from Cons.IH[OF s(3)] obtain new where
    n: "clips = (acc @ [(Some (audio_file_path output_dir i), d)]) @ new"
       "length new = length rest"
       "\<forall>j<length rest. \<exists>spoken d.
           narration_text fmt (rest ! j) = Inr spoken \<and> tts (i + 1 + j) spoken = Some d
           \<and> new ! j = (Some (audio_file_path output_dir (i + 1 + j)), d)"
    by blast
  let ?new = "(Some (audio_file_path output_dir i), d) # new"
  have "clips = acc @ ?new" using n(1) by simp
  moreover have "length ?new = length (slide # rest)" using n(2) by simp
  moreover have "\<exists>spoken d. narration_text fmt ((slide # rest) ! j) = Inr spoken
                   \<and> tts (i + j) spoken = Some d
                   \<and> ?new ! j = (Some (audio_file_path output_dir (i + j)), d)"
    if "j < length (slide # rest)" for j
  proof (cases j)
    case 0
    with s show ?thesis by simp
  next
    case (Suc j')
    with that have "j' < length rest" by simp
    with n(3) Suc show ?thesis by simp
  qed
  ultimately show ?case by blast
qed

lemma tts_loop_returns:
  assumes "\<forall>j<length slides. \<exists>t shown spoken d.
              py_getitem (slides ! j) ''title'' = Some t \<and> py_slice 50 t = Some shown
              \<and> narration_text fmt (slides ! j) = Inr spoken \<and> tts (i + j) spoken = Some d"
  shows "\<exists>clips. tts_loop tts fmt output_dir i slides acc = Inr clips"
  using assms
proof (induction slides arbitrary: i acc)
  case Nil
  then show ?case by simp
next
  case (Cons slide rest)
  from Cons.prems have "\<exists>t shown spoken d.
              py_getitem ((slide # rest) ! 0) ''title'' = Some t \<and> py_slice 50 t = Some shown
              \<and> narration_text fmt ((slide # rest) ! 0) = Inr spoken \<and> tts (i + 0) spoken = Some d"
    by blast
  then obtain t shown spoken d where
    h: "py_getitem slide ''title'' = Some t" "py_slice 50 t = Some shown"
       "narration_text fmt slide = Inr spoken" "tts i spoken = Some d"
    by auto
  have "\<forall>j<length rest. \<exists>t shown spoken d.
              py_getitem (rest ! j) ''title'' = Some t \<and> py_slice 50 t = Some shown
              \<and> narration_text fmt (rest ! j) = Inr spoken \<and> tts ((i + 1) + j) spoken = Some d"
  proof (intro allI impI)
    fix j assume "j < length rest"
    then have "Suc j < length (slide # rest)" by simp
    with Cons.prems have "\<exists>t shown spoken d.
              py_getitem ((slide # rest) ! Suc j) ''title'' = Some t \<and> py_slice 50 t = Some shown
              \<and> narration_text fmt ((slide # rest) ! Suc j) = Inr spoken
              \<and> tts (i + Suc j) spoken = Some d"
      by blast
    then show "\<exists>t shown spoken d.
              py_getitem (rest ! j) ''title'' = Some t \<and> py_slice 50 t = Some shown
              \<and> narration_text fmt (rest ! j) = Inr spoken \<and> tts ((i + 1) + j) spoken = Some d"
      by simp
  qed
  from Cons.IH[OF this, of "acc @ [(Some (audio_file_path output_dir i), d)]"] h
  show ?case by simp
qed

text \<open>
  C8. Whenever \<open>generate_tts_audio\<close> (with its default title duration) returns, the
  list it returns starts with the title slide, with no audio file and the duration 3.0,
  followed by exactly one clip per content slide, in order: the clip of slide \<open>i\<close>
  (counted from 1) is the file \<open>audio_{i:02d}.mp3\<close>, synthesized from the narration text
  of that slide. The narration text is the speaker notes when they are present and
  not empty, and otherwise the title, a full stop and the bullets joined by blanks.
  It does return when the slides file is there, every slide has a title and a
  narration text, and the speech service succeeds on each of them.
\<close>

theorem C8_generate_tts_audio:
  "(\<forall>clips. generate_tts_audio tts fmt slides_file output_dir default_title_duration = Inr clips
      \<longrightarrow> (\<exists>data content_slides slides.
             slides_file = Some data
           \<and> py_getitem data ''content_slides'' = Some content_slides
           \<and> py_iter content_slides = Some slides
           \<and> length clips = 1 + length slides
           \<and> clips ! 0 = (None, 3)
           \<and> (\<forall>i<length slides. \<exists>spoken d.
                  narration_text fmt (slides ! i) = Inr spoken
                \<and> tts (i + 1) spoken = Some d
                \<and> clips ! (i + 1) = (Some (audio_file_path output_dir (i + 1)), d))))
   \<and> (\<forall>data content_slides slides.
          slides_file = Some data
        \<and> py_getitem data ''content_slides'' = Some content_slides
        \<and> py_iter content_slides = Some slides
        \<and> (\<forall>i<length slides. \<exists>t shown spoken d.
               py_getitem (slides ! i) ''title'' = Some t \<and> py_slice 50 t = Some shown
             \<and> narration_text fmt (slides ! i) = Inr spoken \<and> tts (i + 1) spoken = Some d)
      \<longrightarrow> (\<exists>clips. generate_tts_audio tts fmt slides_file output_dir default_title_duration
                     = Inr clips))
   \<and> (\<forall>slide notes. py_get slide ''speaker_notes'' JNull = Some notes \<and> truthy notes
      \<longrightarrow> narration_text fmt slide = Inr notes)
   \<and> (\<forall>slide notes t b joined.
          py_get slide ''speaker_notes'' JNull = Some notes \<and> \<not> truthy notes
        \<and> py_getitem slide ''title'' = Some t
        \<and> py_get slide ''bullets'' (JArr []) = Some b
        \<and> py_join '' '' b = Some joined
      \<longrightarrow> narration_text fmt slide = Inr (JStr (py_format fmt t @ ''. '' @ joined)))"
proof (intro conjI allI impI)
  fix clips
  assume r: "generate_tts_audio tts fmt slides_file output_dir default_title_duration = Inr clips"
  then obtain data content_slides slides where
    d: "slides_file = Some data" "py_getitem data ''content_slides'' = Some content_slides"
       "py_iter content_slides = Some slides"
       "tts_loop tts fmt output_dir 1 slides [(None, default_title_duration)] = Inr clips"
    by (auto simp: generate_tts_audio_def split: option.splits)
  from tts_loop_clips[OF d(4)] obtain new where
    n: "clips = [(None, default_title_duration)] @ new" "length new = length slides"
       "\<forall>j<length slides. \<exists>spoken d.
                  narration_text fmt (slides ! j) = Inr spoken \<and> tts (1 + j) spoken = Some d
                  \<and> new ! j = (Some (audio_file_path output_dir (1 + j)), d)"
    by blast
  have "length clips = 1 + length slides" using n(1,2) by simp
  moreover have "clips ! 0 = (None, 3)" using n(1) by (simp add: default_title_duration_def)
  moreover have "\<forall>i<length slides. \<exists>spoken d.
                  narration_text fmt (slides ! i) = Inr spoken
                \<and> tts (i + 1) spoken = Some d
                \<and> clips ! (i + 1) = (Some (audio_file_path output_dir (i + 1)), d)"
    using n(1,3) by (simp add: add.commute)
  ultimately show "\<exists>data content_slides slides.
             slides_file = Some data
           \<and> py_getitem data ''content_slides'' = Some content_slides
           \<and> py_iter content_slides = Some slides
           \<and> length clips = 1 + length slides
           \<and> clips ! 0 = (None, 3)
           \<and> (\<forall>i<length slides. \<exists>spoken d.
                  narration_text fmt (slides ! i) = Inr spoken
                \<and> tts (i + 1) spoken = Some d
                \<and> clips ! (i + 1) = (Some (audio_file_path output_dir (i + 1)), d))"
    using d(1,2,3) by blast
next
  fix data content_slides slides
  assume a: "slides_file = Some data
        \<and> py_getitem data ''content_slides'' = Some content_slides
        \<and> py_iter content_slides = Some slides
        \<and> (\<forall>i<length slides. \<exists>t shown spoken d.
               py_getitem (slides ! i) ''title'' = Some t \<and> py_slice 50 t = Some shown
             \<and> narration_text fmt (slides ! i) = Inr spoken \<and> tts (i + 1) spoken = Some d)"
  then have "\<forall>j<length slides. \<exists>t shown spoken d.
              py_getitem (slides ! j) ''title'' = Some t \<and> py_slice 50 t = Some shown
              \<and> narration_text fmt (slides ! j) = Inr spoken \<and> tts (1 + j) spoken = Some d"
    by (simp add: add.commute)
  from tts_loop_returns[OF this, of output_dir "[(None, default_title_duration)]"] a
  show "\<exists>clips. generate_tts_audio tts fmt slides_file output_dir default_title_duration
                     = Inr clips"
    by (simp add: generate_tts_audio_def)
next
  fix slide nts
  assume "py_get slide ''speaker_notes'' JNull = Some nts \<and> truthy nts"
  then show "narration_text fmt slide = Inr nts"
    by (simp add: narration_text_def)
next
  fix slide nts t b joined
  assume "py_get slide ''speaker_notes'' JNull = Some nts \<and> \<not> truthy nts
        \<and> py_getitem slide ''title'' = Some t
        \<and> py_get slide ''bullets'' (JArr []) = Some b
        \<and> py_join '' '' b = Some joined"
  then show "narration_text fmt slide = Inr (JStr (py_format fmt t @ ''. '' @ joined))"
    by (simp add: narration_text_def)
qed

theorem C8_generate_tts_audio_witness:
  "generate_tts_audio tts_by_length str_unused (Some two_slides) ''audio'' default_title_duration
     = Inr [(None, 3), (Some ''audio/audio_01.mp3'', 7), (Some ''audio/audio_02.mp3'', 9)]
   \<and> (\<exists>data content_slides slides.
          Some two_slides = Some data
        \<and> py_getitem data ''content_slides'' = Some content_slides
        \<and> py_iter content_slides = Some slides
        \<and> length [(None, 3::real), (Some ''audio/audio_01.mp3'', 7),
                    (Some ''audio/audio_02.mp3'', 9)] = 1 + length slides)"
proof -
  have e: "generate_tts_audio tts_by_length str_unused (Some two_slides) ''audio''
             default_title_duration
           = Inr [(None, 3), (Some ''audio/audio_01.mp3'', 7), (Some ''audio/audio_02.mp3'', 9)]"
    by (simp add: generate_tts_audio_def two_slides_def mk_slide_def narration_text_def
          py_join_def py_format_def tts_by_length_def audio_file_path_def pad2_def
          str_nat.simps default_title_duration_def)
  from C8_generate_tts_audio[of tts_by_length str_unused "Some two_slides" "''audio''"] e
  have "\<exists>data content_slides slides.
          Some two_slides = Some data
        \<and> py_getitem data ''content_slides'' = Some content_slides
        \<and> py_iter content_slides = Some slides
        \<and> length [(None, 3::real), (Some ''audio/audio_01.mp3'', 7),
                    (Some ''audio/audio_02.mp3'', 9)] = 1 + length slides"
    by blast
  with e show ?thesis by blast
qed

section \<open>Properties of the video assembler\<close>

lemma sort_images_example:
  "sort [''img/slide_00.png'', ''img/slide_01.png'', ''img/slide_02.png'']
     = [''img/slide_00.png'', ''img/slide_01.png'', ''img/slide_02.png'']"
  by code_simp

lemma sort_audio_example:
  "sort [''audio/audio_01.mp3'', ''audio/audio_02.mp3'']
     = [''audio/audio_01.mp3'', ''audio/audio_02.mp3'']"
  by code_simp

lemma create_video_complete_fresh_example:
  "create_video_complete disk_empty five_seconds all_paths_exist tts_by_length str_unused
       (Some 3) (Some two_slides) ''img'' ''audio''
     = Inr [\<lparr>clip_image = ''img/slide_00.png'', clip_audio = None, clip_duration = 3\<rparr>,
            \<lparr>clip_image = ''img/slide_01.png'', clip_audio = Some ''audio/audio_01.mp3'',
             clip_duration = 7\<rparr>,
            \<lparr>clip_image = ''img/slide_02.png'', clip_audio = Some ''audio/audio_02.mp3'',
             clip_duration = 9\<rparr>]"
proof -
  have a: "generate_tts_audio tts_by_length str_unused (Some two_slides) ''audio''
             default_title_duration
           = Inr [(None, 3), (Some ''audio/audio_01.mp3'', 7), (Some ''audio/audio_02.mp3'', 9)]"
    by (simp add: generate_tts_audio_def two_slides_def mk_slide_def narration_text_def
          py_join_def py_format_def tts_by_length_def audio_file_path_def pad2_def
          str_nat.simps default_title_duration_def)
  have u: "[0 ..< 3] = [0, 1, 2::nat]" by (simp add: upt_rec)
  have i: "convert_pdf_to_images (Some 3) ''img''
           = Inr [''img/slide_00.png'', ''img/slide_01.png'', ''img/slide_02.png'']"
    by (simp add: convert_pdf_to_images_def u slide_image_path_def pad2_def str_nat.simps)
  show ?thesis
    by (simp add: create_video_complete_def disk_empty_def a i create_video_def
          all_paths_exist_def)
qed

text \<open>
  C2. On a deck of a title slide and two content slides, a first run (nothing on disk)
  pairs frame 0 with the silent title entry and frame \<open>i\<close> with \<open>audio_{i:02d}.mp3\<close>
  (lemma \<open>create_video_complete_fresh_example\<close>). A run that resumes from the files
  of that first run builds its audio list from the \<open>audio_*.mp3\<close> files alone, with no
  entry for the title slide: the title frame is paired with the narration of slide 1,
  frame 1 with the narration of slide 2, and the last frame is dropped.
\<close>

theorem C2_resume_shifts_audio:
  "create_video_complete disk_after_run five_seconds all_paths_exist tts_by_length str_unused
       (Some 3) (Some two_slides) ''img'' ''audio''
     = Inr [\<lparr>clip_image = ''img/slide_00.png'', clip_audio = Some ''audio/audio_01.mp3'',
             clip_duration = 5\<rparr>,
            \<lparr>clip_image = ''img/slide_01.png'', clip_audio = Some ''audio/audio_02.mp3'',
             clip_duration = 5\<rparr>]"
  by (simp add: create_video_complete_def disk_after_run_def sort_images_example
        sort_audio_example create_video_def all_paths_exist_def five_seconds_def)

section \<open>Properties of the icon acquisition chain\<close>

lemma split_ws_aux_words_no_space:
  assumes "\<forall>c \<in> set cur. \<not> is_space c"
  shows "\<forall>w \<in> set (split_ws_aux cur s). \<forall>c \<in> set w. \<not> is_space c"
  using assms
proof (induction s arbitrary: cur)
  case Nil
  then show ?case by simp
next
  case (Cons a s)
  show ?case
  proof (cases "is_space a")
    case True
    have "\<forall>w \<in> set (split_ws_aux [] s). \<forall>c \<in> set w. \<not> is_space c"
      by (rule Cons.IH) simp
    with True Cons.prems show ?thesis by simp
  next
    case False
    have "\<forall>w \<in> set (split_ws_aux (cur @ [a]) s). \<forall>c \<in> set w. \<not> is_space c"
      by (rule Cons.IH) (use False Cons.prems in auto)
    with False show ?thesis by simp
  qed
qed

lemma split_ws_aux_no_space_input:
  assumes "\<forall>c \<in> set s. \<not> is_space c"
  shows "split_ws_aux cur s = (if cur @ s = [] then [] else [cur @ s])"
  using assms by (induction s arbitrary: cur) auto

lemma first_word_differs:
  assumes "length (split_ws query) > 1"
  shows "hd (split_ws query) \<noteq> query"
proof
  assume eq: "hd (split_ws query) = query"
  from assms have ne: "split_ws query \<noteq> []" by auto
  then have "hd (split_ws query) \<in> set (split_ws query)" by simp
  moreover have "\<forall>w \<in> set (split_ws query). \<forall>c \<in> set w. \<not> is_space c"
    unfolding split_ws_def by (rule split_ws_aux_words_no_space) simp
  ultimately have "\<forall>c \<in> set query. \<not> is_space c" using eq by auto
  from split_ws_aux_no_space_input[OF this, of "[]"] have "length (split_ws query) \<le> 1"
    by (simp add: split_ws_def)
  with assms show False by simp
qed

lemma extract_alternative_from_title_fresh:
  assumes "length avoid_queries < 5"
  shows "extract_alternative_from_title title avoid_queries \<notin> set avoid_queries"
proof (cases "find (\<lambda>candidate. candidate \<notin> set avoid_queries) (title_candidates title)")
  case (Some candidate)
  then have "candidate \<notin> set avoid_queries" by (auto simp: find_Some_iff)
  with Some show ?thesis by (simp add: extract_alternative_from_title_def)
next
  case None
  show ?thesis
  proof (cases "find (\<lambda>fallback. fallback \<notin> set avoid_queries) generic_fallbacks")
    case (Some fallback)
    then have "fallback \<notin> set avoid_queries" by (auto simp: find_Some_iff)
    with None Some show ?thesis by (simp add: extract_alternative_from_title_def)
  next
    case none2: None
    then have "set generic_fallbacks \<subseteq> set avoid_queries"
      by (auto simp: find_None_iff)
    then have "card (set generic_fallbacks) \<le> card (set avoid_queries)"
      by (intro card_mono) simp_all
    moreover have "card (set generic_fallbacks) = 5"
      by (simp add: generic_fallbacks_def)
    moreover have "card (set avoid_queries) \<le> length avoid_queries"
      by (rule card_length)
    ultimately show ?thesis using assms by simp
  qed
qed

lemma generate_alternative_query_fresh:
  assumes "length failed_queries < 5"
    and "generate_alternative_query svc self slide_title bullets failed_queries = (alt, self')"
  shows "alt \<notin> set failed_queries"
proof -
  obtain r self1 where
    c: "call_gemini svc (AlternativePrompt slide_title bullets failed_queries) self = (r, self1)"
    by (cases "call_gemini svc (AlternativePrompt slide_title bullets failed_queries) self")
  from assms(2) c consider
      "alt = extract_alternative_from_title slide_title failed_queries"
    | reply where "alt = clean_query reply" "clean_query reply \<notin> set failed_queries"
    by (auto simp: generate_alternative_query_def Let_def split: sum.splits if_splits)
  then show ?thesis
    using extract_alternative_from_title_fresh[OF assms(1)] by cases auto
qed

lemma alternative_loop_attempts:
  assumes "alternative_loop search svc slide_title bullets retries failed_queries qg
             = (found, tried, qg')"
    and "distinct failed_queries"
    and "length failed_queries + length retries < 6"
    and "\<forall>i<length failed_queries. \<not> search i (failed_queries ! i)"
  shows "distinct tried
       \<and> (\<exists>new. tried = failed_queries @ new \<and> length new \<le> length retries)
       \<and> (found \<longrightarrow> tried \<noteq> [] \<and> search (length tried - 1) (last tried)
                     \<and> (\<forall>i<length tried - 1. \<not> search i (tried ! i)))
       \<and> (\<not> found \<longrightarrow> (\<forall>i<length tried. \<not> search i (tried ! i)))"
  using assms
proof (induction retries arbitrary: failed_queries qg)
  case Nil
  then show ?case by simp
next
  case (Cons retry_num rest)
  obtain alt qg1 where
    g: "generate_alternative_query svc qg slide_title bullets failed_queries = (alt, qg1)"
    by (cases "generate_alternative_query svc qg slide_title bullets failed_queries")
  from Cons.prems(3) have "length failed_queries < 5" by simp
  from generate_alternative_query_fresh[OF this g] have fresh: "alt \<notin> set failed_queries" .
  then have d: "distinct (failed_queries @ [alt])" using Cons.prems(2) by simp
  show ?case
  proof (cases "search (length failed_queries) alt")
    case True
    with Cons.prems(1) g have r: "found" "tried = failed_queries @ [alt]"
      by simp_all
    have "\<forall>i<length tried - 1. \<not> search i (tried ! i)"
      using r(2) Cons.prems(4) by (simp add: nth_append)
    with r d True show ?thesis by simp
  next
    case False
    with Cons.prems(1) g have run:
      "alternative_loop search svc slide_title bullets rest (failed_queries @ [alt]) qg1
         = (found, tried, qg')"
      by simp
    have l: "length (failed_queries @ [alt]) + length rest < 6"
      using Cons.prems(3) by simp
    have f: "\<forall>i<length (failed_queries @ [alt]). \<not> search i ((failed_queries @ [alt]) ! i)"
      using Cons.prems(4) False by (auto simp: nth_append less_Suc_eq)
    from Cons.IH[OF run d l f] obtain new where
      ih: "distinct tried" "tried = (failed_queries @ [alt]) @ new" "length new \<le> length rest"
          "found \<longrightarrow> tried \<noteq> [] \<and> search (length tried - 1) (last tried)
                     \<and> (\<forall>i<length tried - 1. \<not> search i (tried ! i))"
          "\<not> found \<longrightarrow> (\<forall>i<length tried. \<not> search i (tried ! i))"
      by blast
    have "tried = failed_queries @ (alt # new) \<and> length (alt # new) \<le> length (retry_num # rest)"
      using ih(2,3) by simp
    then have "\<exists>new. tried = failed_queries @ new \<and> length new \<le> length (retry_num # rest)"
      by blast
    with ih(1,4,5) show ?thesis by blast
  qed
qed

lemma search_and_download_cases:
  assumes "search_and_download search svc query query_generator slide_title bullets
             = (ok, tried, qg')"
  obtains
    (original) "search 0 query" "ok" "tried = [query]"
  | (first_word) "\<not> search 0 query" "length (split_ws query) > 1"
      "search 1 (hd (split_ws query))" "ok" "tried = [query, hd (split_ws query)]"
  | (alternative) failed1 qg title bs qg1 where
      "\<not> search 0 query"
      "failed1 = (if length (split_ws query) > 1 then [query, hd (split_ws query)] else [query])"
      "length (split_ws query) > 1 \<longrightarrow> \<not> search 1 (hd (split_ws query))"
      "alternative_loop search svc title bs [0 ..< 2] failed1 qg = (True, tried, qg1)" "ok"
  | (generic_after_alternatives) failed1 qg title bs failed2 qg1 where
      "\<not> search 0 query"
      "failed1 = (if length (split_ws query) > 1 then [query, hd (split_ws query)] else [query])"
      "length (split_ws query) > 1 \<longrightarrow> \<not> search 1 (hd (split_ws query))"
      "alternative_loop search svc title bs [0 ..< 2] failed1 qg = (False, failed2, qg1)"
      "tried = failed2 @ [''circle'']" "ok = search (length failed2) ''circle''"
  | (generic) failed1 where
      "\<not> search 0 query"
      "failed1 = (if length (split_ws query) > 1 then [query, hd (split_ws query)] else [query])"
      "length (split_ws query) > 1 \<longrightarrow> \<not> search 1 (hd (split_ws query))"
      "tried = failed1 @ [''circle'']" "ok = search (length failed1) ''circle''"
proof (cases "search 0 query")
  case True
  with assms have "ok" "tried = [query]" by (simp_all add: search_and_download_def)
  with True show ?thesis by (rule original)
next
  case s0: False
  let ?words = "split_ws query"
  show ?thesis
  proof (cases "length ?words > 1 \<and> search 1 (hd ?words)")
    case True
    with s0 assms have "ok" "tried = [query, hd ?words]"
      by (simp_all add: search_and_download_def Let_def)
    with s0 True show ?thesis by (intro first_word) simp_all
  next
    case nw: False
    define failed1 where
      "failed1 = (if length ?words > 1 then [query, hd ?words] else [query])"
    have nw': "length ?words > 1 \<longrightarrow> \<not> search 1 (hd ?words)" using nw by simp
    have body: "(case (query_generator, slide_title, bullets) of
                  (Some qg, Some title, Some bs) \<Rightarrow>
                    if title \<noteq> [] \<and> bs \<noteq> []
                    then (case alternative_loop search svc title bs [0 ..< 2] failed1 qg of
                            (True, tried, qg') \<Rightarrow> (True, tried, Some qg')
                          | (False, failed_queries2, qg') \<Rightarrow>
                              (search (length failed_queries2) ''circle'',
                               failed_queries2 @ [''circle''], Some qg'))
                    else (search (length failed1) ''circle'',
                          failed1 @ [''circle''], query_generator)
                | _ \<Rightarrow> (search (length failed1) ''circle'',
                        failed1 @ [''circle''], query_generator)) = (ok, tried, qg')"
      using assms s0 nw unfolding search_and_download_def failed1_def Let_def
      by (simp split: if_splits cong: option.case_cong prod.case_cong bool.case_cong if_cong)
    show ?thesis
    proof (cases "\<exists>qg title bs. query_generator = Some qg \<and> slide_title = Some title
                    \<and> bullets = Some bs \<and> title \<noteq> [] \<and> bs \<noteq> []")
      case True
      then obtain qg title bs where
        a: "query_generator = Some qg" "slide_title = Some title" "bullets = Some bs"
           "title \<noteq> []" "bs \<noteq> []"
        by blast
      obtain found tried1 qg1 where
        l: "alternative_loop search svc title bs [0 ..< 2] failed1 qg = (found, tried1, qg1)"
        by (cases "alternative_loop search svc title bs [0 ..< 2] failed1 qg")
      show ?thesis
      proof (cases found)
        case True
        with body a l have "ok" "tried = tried1" by simp_all
        with s0 nw' l True show ?thesis
          by (intro alternative[of failed1 title bs qg qg1]) (simp_all add: failed1_def)
      next
        case False
        with body a l have "tried = tried1 @ [''circle'']"
          "ok = search (length tried1) ''circle''" by simp_all
        with s0 nw' l False show ?thesis
          by (intro generic_after_alternatives[of failed1 title bs qg tried1 qg1])
             (simp_all add: failed1_def)
      qed
    next
      case False
      with body have "tried = failed1 @ [''circle'']" "ok = search (length failed1) ''circle''"
        by (auto split: option.splits if_splits)
      with s0 nw' show ?thesis
        by (intro generic[of failed1]) (simp_all add: failed1_def)
    qed
  qed
qed

lemma failed1_facts:
  assumes "\<not> search 0 query"
    and "failed1 = (if length (split_ws query) > 1 then [query, hd (split_ws query)] else [query])"
    and "length (split_ws query) > 1 \<longrightarrow> \<not> search 1 (hd (split_ws query))"
  shows "distinct failed1" "failed1 \<noteq> []" "hd failed1 = query" "length failed1 \<le> 2"
    "\<forall>i<length failed1. \<not> search i (failed1 ! i)"
proof -
  show "distinct failed1" using assms(2) first_word_differs[of query] by auto
  show "failed1 \<noteq> []" "hd failed1 = query" "length failed1 \<le> 2" using assms(2) by auto
  show "\<forall>i<length failed1. \<not> search i (failed1 ! i)"
    using assms by (auto simp: less_Suc_eq nth_Cons')
qed


lemma search_and_download_at_most_five:
  assumes "search_and_download search svc query query_generator slide_title bullets
             = (ok, tried, qg')"
  shows "length tried \<le> 5"
  using assms
proof (cases rule: search_and_download_cases)
  case original
  then show ?thesis by simp
next
  case first_word
  then show ?thesis by simp
next
  case (alternative failed1 qg title bs qg1)
  note f = failed1_facts[OF alternative(1,2,3)]
  from f(4) have "length failed1 + length [0 ..< 2::nat] < 6" by simp
  from alternative_loop_attempts[OF alternative(4) f(1) this f(5)] f(4)
  show ?thesis by auto
next
  case (generic_after_alternatives failed1 qg title bs failed2 qg1)
  note f = failed1_facts[OF generic_after_alternatives(1,2,3)]
  from f(4) have "length failed1 + length [0 ..< 2::nat] < 6" by simp
  from alternative_loop_attempts[OF generic_after_alternatives(4) f(1) this f(5)] f(4)
    generic_after_alternatives(5)
  show ?thesis by auto
next
  case (generic failed1)
  note f = failed1_facts[OF generic(1,2,3)]
  from f(4) generic(4) show ?thesis by simp
qed

text \<open>
  C1. The chain tries the derived phrase, then its first word if it has several words,
  then up to two alternatives from the AI service, then the generic term \<open>circle\<close>, and
  halts at the first success. That makes up to five attempts
  (lemma \<open>search_and_download_at_most_five\<close>), not four: the constant
  \<open>max_attempts = 4\<close> of the source is never read. With a phrase of two words, a
  generator at hand and an icon service on which everything fails, five attempts are
  made.
\<close>

theorem C1_five_attempts:
  "fst (search_and_download search_never svc_suggest ''data chart''
          (Some (gemini_init [''k0''] ''m'')) (Some ''Data Trends'') (Some [''Sales grew''])) = False
   \<and> fst (snd (search_and_download search_never svc_suggest ''data chart''
          (Some (gemini_init [''k0''] ''m'')) (Some ''Data Trends'') (Some [''Sales grew''])))
       = [''data chart'', ''data'', ''graph'', ''bar diagram'', ''circle'']
   \<and> length [''data chart'', ''data'', ''graph'', ''bar diagram'', ''circle''] = 5"
proof -
  have w: "split_ws ''data chart'' = [''data'', ''chart'']"
    by (simp add: split_ws_def is_space_def)
  have u: "[0 ..< 2] = [0, 1::nat]" by (simp add: upt_rec)
  have q1: "clean_query ''Graph'' = ''graph''"
    by (simp add: clean_query_def strip_def strip_chars_def is_space_def lower_def
          lower_char_def split_ws_def Let_def)
  have q2: "clean_query ''bar diagram'' = ''bar diagram''"
    by (simp add: clean_query_def strip_def strip_chars_def is_space_def lower_def
          lower_char_def split_ws_def Let_def)
  have g1: "generate_alternative_query svc_suggest (gemini_init [''k0''] ''m'') ''Data Trends''
              [''Sales grew''] [''data chart'', ''data'']
            = (''graph'', gemini_init [''k0''] ''m'')"
    by (simp add: generate_alternative_query_def call_gemini_def generate_content_def
          gemini_init_def init_client_def svc_suggest_def q1)
  have g2: "generate_alternative_query svc_suggest (gemini_init [''k0''] ''m'') ''Data Trends''
              [''Sales grew''] [''data chart'', ''data'', ''graph'']
            = (''bar diagram'', gemini_init [''k0''] ''m'')"
    by (simp add: generate_alternative_query_def call_gemini_def generate_content_def
          gemini_init_def init_client_def svc_suggest_def q2)
  have "search_and_download search_never svc_suggest ''data chart''
          (Some (gemini_init [''k0''] ''m'')) (Some ''Data Trends'') (Some [''Sales grew''])
        = (False, [''data chart'', ''data'', ''graph'', ''bar diagram'', ''circle''],
           Some (gemini_init [''k0''] ''m''))"
    by (simp add: search_and_download_def search_never_def w u g1 g2 Let_def)
  then show ?thesis by simp
qed

text \<open>
  C3. In every call to \<open>search_and_download\<close>, with the alternatives coming
  from \<open>generate_alternative_query\<close>: the first attempt is the given query; every
  attempt but the last one has failed; no attempt before the final generic fallback
  repeats an earlier query of the call; the chain stops with success at the first attempt
  that succeeds, and otherwise its last attempt is the generic term \<open>circle\<close>. The
  generic fallback is attempted whether or not \<open>circle\<close> has already failed in the call,
  so it is the one attempt that can repeat an earlier query.
\<close>

theorem C3_icon_chain:
  assumes "search_and_download search svc query query_generator slide_title bullets
             = (ok, tried, qg')"
  shows "tried \<noteq> [] \<and> hd tried = query
       \<and> distinct (butlast tried)
       \<and> (distinct tried \<or> last tried = ''circle'')
       \<and> (\<forall>i<length tried - 1. \<not> search i (tried ! i))
       \<and> ok = search (length tried - 1) (last tried)
       \<and> (\<not> ok \<longrightarrow> last tried = ''circle'')"
  using assms
proof (cases rule: search_and_download_cases)
  case original
  then show ?thesis by simp
next
  case first_word
  with first_word_differs[of query] show ?thesis by (auto simp: less_Suc_eq)
next
  case (alternative failed1 qg title bs qg1)
  note f = failed1_facts[OF alternative(1,2,3)]
  from f(4) have "length failed1 + length [0 ..< 2::nat] < 6" by simp
  from alternative_loop_attempts[OF alternative(4) f(1) this f(5)] obtain new where
    a: "distinct tried" "tried = failed1 @ new" "tried \<noteq> []"
       "search (length tried - 1) (last tried)"
       "\<forall>i<length tried - 1. \<not> search i (tried ! i)"
    by blast
  have "hd tried = query" using a(2) f(2,3) by simp
  moreover have "distinct (butlast tried)" using a(1) by (rule distinct_butlast)
  ultimately show ?thesis using a alternative(5) by simp
next
  case (generic_after_alternatives failed1 qg title bs failed2 qg1)
  note f = failed1_facts[OF generic_after_alternatives(1,2,3)]
  from f(4) have "length failed1 + length [0 ..< 2::nat] < 6" by simp
  from alternative_loop_attempts[OF generic_after_alternatives(4) f(1) this f(5)] obtain new where
    a: "distinct failed2" "failed2 = failed1 @ new"
       "\<forall>i<length failed2. \<not> search i (failed2 ! i)"
    by blast
  have "hd tried = query" using generic_after_alternatives(5) a(2) f(2,3) by simp
  moreover have "\<forall>i<length tried - 1. \<not> search i (tried ! i)"
    using generic_after_alternatives(5) a(3) by (simp add: nth_append)
  ultimately show ?thesis using a(1) generic_after_alternatives(5,6) by simp
next
  case (generic failed1)
  note f = failed1_facts[OF generic(1,2,3)]
  have "hd tried = query" using generic(4) f(2,3) by simp
  moreover have "\<forall>i<length tried - 1. \<not> search i (tried ! i)"
    using generic(4) f(5) by (simp add: nth_append)
  ultimately show ?thesis using f(1) generic(4,5) by simp
qed

theorem C3_icon_chain_witness:
  "search_and_download search_graph svc_suggest ''data chart''
          (Some (gemini_init [''k0''] ''m'')) (Some ''Data Trends'') (Some [''Sales grew''])
     = (True, [''data chart'', ''data'', ''graph''], Some (gemini_init [''k0''] ''m''))
   \<and> distinct (butlast [''data chart'', ''data'', ''graph''])
   \<and> True = search_graph (length [''data chart'', ''data'', ''graph''] - 1)
               (last [''data chart'', ''data'', ''graph''])"
proof -
  have w: "split_ws ''data chart'' = [''data'', ''chart'']"
    by (simp add: split_ws_def is_space_def)
  have u: "[0 ..< 2] = [0, 1::nat]" by (simp add: upt_rec)
  have q1: "clean_query ''Graph'' = ''graph''"
    by (simp add: clean_query_def strip_def strip_chars_def is_space_def lower_def
          lower_char_def split_ws_def Let_def)
  have g1: "generate_alternative_query svc_suggest (gemini_init [''k0''] ''m'') ''Data Trends''
              [''Sales grew''] [''data chart'', ''data'']
            = (''graph'', gemini_init [''k0''] ''m'')"
    by (simp add: generate_alternative_query_def call_gemini_def generate_content_def
          gemini_init_def init_client_def svc_suggest_def q1)
  have e: "search_and_download search_graph svc_suggest ''data chart''
          (Some (gemini_init [''k0''] ''m'')) (Some ''Data Trends'') (Some [''Sales grew''])
        = (True, [''data chart'', ''data'', ''graph''], Some (gemini_init [''k0''] ''m''))"
    by (simp add: search_and_download_def search_graph_def w u g1 Let_def)
  from C3_icon_chain[OF e] e show ?thesis by blast
qed

theorem C3_circle_repeated_counterexample:
  "search_and_download search_never svc_suggest ''circle'' None None None
     = (False, [''circle'', ''circle''], None)
   \<and> \<not> distinct [''circle'', ''circle'']"
  by (simp add: search_and_download_def search_never_def split_ws_def is_space_def Let_def)

end
